theory Spec2Isabelle
  imports Main "HOL-Library.Char_ord" "HOL-Library.List_Lexorder" "HOL-Library.Multiset"
begin

section \<open>JavaScript string primitives\<close>

text \<open>
  A JavaScript string is a sequence of UTF-16 code units and \<open>length\<close> counts code units.
  The model uses \<^typ>\<open>string\<close>, whose characters are the code units below 256; text outside
  that range is not representable. No function below looks at a code unit other than to
  compare it with a newline, a white-space character or a character of a given pattern.
\<close>

definition NL :: char where
  "NL = CHR 0x0A"

text \<open>
  The characters matched by the regular expression class \<open>\s\<close> and stripped by \<open>trim()\<close>,
  as far as they lie below 256: TAB, LF, VT, FF, CR, SPACE and NBSP.
\<close>

definition isWhiteSpace :: "char \<Rightarrow> bool" where
  "isWhiteSpace c \<longleftrightarrow> c \<in> set [CHR 0x09, CHR 0x0A, CHR 0x0B, CHR 0x0C, CHR 0x0D, CHR 0x20, CHR 0xA0]"

definition trim :: "string \<Rightarrow> string" where
  "trim s = rev (dropWhile isWhiteSpace (rev (dropWhile isWhiteSpace s)))"

text \<open>
  \<open>text.lastIndexOf(c, p)\<close>: the greatest index \<open>i \<le> p\<close> with \<open>text[i] = c\<close>; \<open>None\<close> is the
  source's \<open>-1\<close>. A position beyond the end of the text is clamped by the bounds test.
\<close>

primrec lastIndexOf :: "string \<Rightarrow> char \<Rightarrow> nat \<Rightarrow> nat option" where
  "lastIndexOf text c 0 = (if 0 < length text \<and> text ! 0 = c then Some 0 else None)"
| "lastIndexOf text c (Suc p) =
     (if Suc p < length text \<and> text ! Suc p = c then Some (Suc p) else lastIndexOf text c p)"

text \<open>\<open>text.substring(a, b)\<close> for \<open>a \<le> b\<close>.\<close>

definition substring :: "string \<Rightarrow> nat \<Rightarrow> nat \<Rightarrow> string" where
  "substring text a b = take (b - a) (drop a text)"

text \<open>
  \<open>text.replaceAll(pat, '')\<close>: every occurrence of \<open>pat\<close>, found from left to right without
  overlap, is deleted. With the empty pattern the source inserts the empty string between
  the characters, which changes nothing.
\<close>

function replaceAll_empty :: "string \<Rightarrow> string \<Rightarrow> string" where
  "replaceAll_empty pat [] = []"
| "replaceAll_empty pat (c # cs) =
     (if pat \<noteq> [] \<and> take (length pat) (c # cs) = pat
      then replaceAll_empty pat (drop (length pat) (c # cs))
      else c # replaceAll_empty pat cs)"
  by pat_completeness auto
termination
  by (relation "measure (\<lambda>(pat, s). length s)") auto

text \<open>\<open>text.replace(/\s+/g, ' ')\<close>: every maximal run of white space becomes one space.\<close>

function replace_ws_runs :: "string \<Rightarrow> string" where
  "replace_ws_runs [] = []"
| "replace_ws_runs (c # cs) =
     (if isWhiteSpace c then CHR 0x20 # replace_ws_runs (dropWhile isWhiteSpace cs)
      else c # replace_ws_runs cs)"
  by pat_completeness auto
termination
  by (relation "measure length") (auto simp: le_imp_less_Suc length_dropWhile_le)

text \<open>
  \<open>text.replace(/\n\s+\n/g, '\n\n')\<close>. A match starts at a newline; the greedy \<open>\s+\<close> takes
  at least one white-space character and backtracks to the last newline of the white-space
  run that follows, so the match ends at the last newline of that run whose index in the
  run is at least 1. The scan goes on after the match.
\<close>

definition blank_match :: "string \<Rightarrow> nat option" where
  "blank_match cs =
     (let run = takeWhile isWhiteSpace cs
      in case lastIndexOf run NL (length run) of
           None \<Rightarrow> None
         | Some j \<Rightarrow> if 1 \<le> j then Some j else None)"

function replace_blank_lines :: "string \<Rightarrow> string" where
  "replace_blank_lines [] = []"
| "replace_blank_lines (c # cs) =
     (if c = NL
      then (case blank_match cs of
              Some j \<Rightarrow> NL # NL # replace_blank_lines (drop (Suc j) cs)
            | None \<Rightarrow> c # replace_blank_lines cs)
      else c # replace_blank_lines cs)"
  by pat_completeness auto
termination
  by (relation "measure length") auto

text \<open>Strings of decimal digits, the form of a tweet id. The empty string is one of them.\<close>

definition is_decimal :: "string \<Rightarrow> bool" where
  "is_decimal s = list_all (\<lambda>c. c \<in> set ''0123456789'') s"

text \<open>
  \<open>Array.prototype.sort(cmp)\<close> for a comparator that is a total preorder: the stable sort,
  here by insertion. \<open>le x y\<close> stands for \<open>cmp(x, y) <= 0\<close>.
\<close>

fun insort_by :: "('a \<Rightarrow> 'a \<Rightarrow> bool) \<Rightarrow> 'a \<Rightarrow> 'a list \<Rightarrow> 'a list" where
  "insort_by le x [] = [x]"
| "insort_by le x (y # ys) = (if le x y then x # y # ys else y # insort_by le x ys)"

definition sort_by :: "('a \<Rightarrow> 'a \<Rightarrow> bool) \<Rightarrow> 'a list \<Rightarrow> 'a list" where
  "sort_by le xs = foldr (insort_by le) xs []"

section \<open>Constants\<close>

definition TELEGRAM_MAX_MESSAGE_LENGTH :: nat where
  "TELEGRAM_MAX_MESSAGE_LENGTH = 4096"

definition TELEGRAM_CAPTION_MAX_LENGTH :: nat where
  "TELEGRAM_CAPTION_MAX_LENGTH = 1024"

definition TELEGRAM_MEDIA_GROUP_MAX_SIZE :: nat where
  "TELEGRAM_MEDIA_GROUP_MAX_SIZE = 10"

definition X_API_MAX_RESULTS :: nat where
  "X_API_MAX_RESULTS = 100"

section \<open>Message chunking\<close>

text \<open>
  One round of the loop of \<open>chunkTelegramMessage\<close>: \<open>splitAt\<close> is the index where the piece
  that starts at \<open>start\<close> ends, \<open>nextStart\<close> the index where the next piece starts.
\<close>

definition splitAt :: "string \<Rightarrow> nat \<Rightarrow> nat \<Rightarrow> nat" where
  "splitAt text chunkSize start =
     (let end = min (start + chunkSize) (length text)
      in case lastIndexOf text NL end of
           None \<Rightarrow> end
         | Some i \<Rightarrow> if i \<le> start then end else i)"

definition nextStart :: "string \<Rightarrow> nat \<Rightarrow> nat \<Rightarrow> nat" where
  "nextStart text chunkSize start =
     (let end = min (start + chunkSize) (length text); s = splitAt text chunkSize start
      in if s = end then end else s + 1)"

text \<open>
  The \<open>while (start < text.length)\<close> loop. With \<open>chunkSize = 0\<close> the source never leaves the
  loop; the second conjunct of the guard keeps the recursion well-founded, and
  \<open>chunkTelegramMessage\<close> below returns \<open>None\<close> for that case instead of entering the loop.
\<close>

function chunk_loop :: "string \<Rightarrow> nat \<Rightarrow> nat \<Rightarrow> string list" where
  "chunk_loop text chunkSize start =
     (if start < length text \<and> 0 < chunkSize
      then substring text start (splitAt text chunkSize start)
             # chunk_loop text chunkSize (nextStart text chunkSize start)
      else [])"
  by pat_completeness auto
termination
proof (relation "measure (\<lambda>(s, chunkSize, start). length s - start)")
  fix s :: string and chunkSize start :: nat
  assume a: "start < length s \<and> 0 < chunkSize"
  then have "start < splitAt s chunkSize start"
    by (auto simp: splitAt_def Let_def split: option.splits)
  then have "start < nextStart s chunkSize start"
    by (auto simp: nextStart_def Let_def)
  then show "((s, chunkSize, nextStart s chunkSize start), (s, chunkSize, start))
        \<in> measure (\<lambda>(s, chunkSize, start). length s - start)"
    using a by auto
qed simp

declare chunk_loop.simps [simp del]

text \<open>\<open>None\<close>: the call does not return (a text longer than \<open>chunkSize = 0\<close>).\<close>

definition chunkTelegramMessage :: "string \<Rightarrow> nat \<Rightarrow> string list option" where
  "chunkTelegramMessage text chunkSize =
     (if length text \<le> chunkSize then Some [text]
      else if chunkSize = 0 then None
      else Some (chunk_loop text chunkSize 0))"

section \<open>Data model\<close>

text \<open>The persisted record \<open>{last_id, user_id}\<close>; \<open>None\<close> is \<open>null\<close> or an absent key.\<close>

record state =
  last_id :: "string option"
  user_id :: "string option"

text \<open>
  A tweet object of the X API, with the fields the program reads: \<open>id\<close>, \<open>text\<close>,
  \<open>note_tweet?.text\<close>, \<open>attachments?.media_keys || []\<close> and the \<open>url\<close> of every entry of
  \<open>entities?.urls || []\<close> (the empty string for an entry without one).
\<close>

record tweet =
  tweet_id :: string
  tweet_text :: "string option"
  note_tweet_text :: "string option"
  media_keys :: "string list"
  entity_urls :: "string list"

text \<open>An element of \<open>includes.media\<close>.\<close>

record media_obj =
  media_key :: string
  media_type :: string
  media_url :: "string option"
  preview_image_url :: "string option"

text \<open>What \<open>extractMedia\<close> returns for one attachment.\<close>

record tg_media =
  tg_type :: string
  tg_url :: string
  isVideoPreview :: bool

text \<open>An element of the array passed to \<open>bot.api.sendMediaGroup\<close>.\<close>

record input_media =
  im_type :: string
  im_media :: string
  im_caption :: "string option"

text \<open>
  The calls of the Telegram Bot API: \<open>sendMessage(chat, text, {disable_web_page_preview})\<close>,
  the same with \<open>parse_mode: 'HTML'\<close> (src/x_to_telegram.js), \<open>sendPhoto(chat, url, {caption})\<close>
  and \<open>sendMediaGroup(chat, group)\<close>. The chat is the fixed \<open>TELEGRAM_CHAT_ID\<close>.
\<close>

datatype tg_call =
    SendMessage string bool
  | SendMessageHTML string bool
  | SendPhoto string string
  | SendMediaGroup "input_media list"

text \<open>
  Thrown values. \<open>ApiError c\<close> is the X client's response error with \<open>code = c\<close>; the other
  errors are plain \<open>Error\<close> objects (no \<open>code\<close>, \<open>statusCode\<close>, \<open>response\<close> or \<open>data\<close>) or
  the Telegram client's errors (which carry \<open>error_code\<close>, not \<open>code\<close>). \<open>NonTermination\<close>
  stands for a call that does not return.
\<close>

datatype error =
    ApiError nat
  | UserNotFound
  | TweetNotFound
  | ConfigError
  | StoreError
  | TelegramError
  | SyntaxError
  | NonTermination

definition has429Status :: "error \<Rightarrow> bool" where
  "has429Status e = (case e of ApiError c \<Rightarrow> c = 429 | _ \<Rightarrow> False)"

text \<open>
  The lines written by \<open>log\<close> and \<open>logError\<close>, by their tag. The diagnostic lines of
  \<open>logRateLimit\<close> (quota headers and clock arithmetic) are left out.
\<close>

datatype log_event =
    LogStateLoaded "string option" "string option"
  | LogStateFresh
  | LogStateLoadFailed
  | LogStateSaved "string option"
  | LogStateSaveFailed
  | LogDryRunMessage string
  | LogDryRunMedia "(string \<times> string) list"
  | LogDryRunSeparator
  | LogTelegramMediaError
  | LogTelegramError
  | LogLookup string
  | LogFetchSpecific string
  | LogNoNewTweets
  | LogFound nat
  | LogPosted string nat
  | LogDone nat
  | LogWarnRateLimit

text \<open>The query of \<open>client.v2.userTimeline\<close>.\<close>

record timeline_query =
  since_id :: "string option"
  max_results :: nat
  exclude :: "string list"

text \<open>
  The outside world as the program meets it. The environment answers the program's
  requests: whether the credentials are set, whether the state store can be read, whether
  the \<open>n\<close>-th write to it succeeds, whether the \<open>n\<close>-th call of the Telegram API succeeds
  (it may depend on the call), and what the X API returns or throws. \<open>collation_le a b\<close> is
  the comparison \<open>a.localeCompare(b) <= 0\<close> of the runtime's default locale.
\<close>

record env =
  telegram_configured :: bool
  bearer_configured :: bool
  store_configured :: bool
  store_read_ok :: bool
  store_write_ok :: "nat \<Rightarrow> bool"
  tg_ok :: "nat \<Rightarrow> tg_call \<Rightarrow> bool"
  userByUsername :: "string \<Rightarrow> error + string option"
  userTimeline :: "string \<Rightarrow> timeline_query \<Rightarrow> error + tweet list \<times> media_obj list"
  singleTweet :: "string \<Rightarrow> error + tweet option \<times> media_obj list"
  collation_le :: "string \<Rightarrow> string \<Rightarrow> bool"

text \<open>
  The mutable part: the content of the state store (\<open>None\<close>: no \<open>state.json\<close>, or no state
  file), the number of writes tried, the number of Telegram calls tried, the calls Telegram
  accepted (oldest first) and the log.
\<close>

record world =
  store :: "state option"
  store_writes :: nat
  tg_calls :: nat
  delivered :: "tg_call list"
  logs :: "log_event list"

text \<open>The parsed command line.\<close>

record args =
  username :: string
  includeRetweets :: bool
  includeReplies :: bool
  maxPerRun :: nat
  disablePreview :: bool
  dryRun :: bool
  tweetId :: "string option"

definition log :: "log_event \<Rightarrow> world \<Rightarrow> world" where
  "log ev w = w\<lparr>logs := logs w @ [ev]\<rparr>"

text \<open>JavaScript truthiness of a value that is a string, \<open>null\<close> or \<open>undefined\<close>.\<close>

definition truthy :: "string option \<Rightarrow> bool" where
  "truthy v = (case v of None \<Rightarrow> False | Some s \<Rightarrow> s \<noteq> [])"

definition str_or_empty :: "string option \<Rightarrow> string" where
  "str_or_empty v = (case v of None \<Rightarrow> [] | Some s \<Rightarrow> s)"

text \<open>The persisted cursor: the \<open>last_id\<close> a later \<open>loadState\<close> would find.\<close>

definition cursor :: "world \<Rightarrow> string option" where
  "cursor w = (case store w of None \<Rightarrow> None | Some st \<Rightarrow> last_id st)"

section \<open>State store (Gist)\<close>

text \<open>
  \<open>getGistCredentials\<close> throws outside the \<open>try\<close> block; a failed request or an unparsable
  content is logged as CRITICAL and thrown again.
\<close>

definition loadState :: "env \<Rightarrow> world \<Rightarrow> (error + state) \<times> world" where
  "loadState E w =
     (if \<not> store_configured E then (Inl ConfigError, w)
      else if \<not> store_read_ok E then (Inl StoreError, log LogStateLoadFailed w)
      else case store w of
             Some st \<Rightarrow> (Inr st, log (LogStateLoaded (last_id st) (user_id st)) w)
           | None \<Rightarrow> (Inr \<lparr>last_id = None, user_id = None\<rparr>, log LogStateFresh w))"

definition saveState :: "env \<Rightarrow> string option \<Rightarrow> string option \<Rightarrow> world \<Rightarrow> (error + unit) \<times> world" where
  "saveState E lastId userId w =
     (if \<not> store_configured E then (Inl ConfigError, w)
      else let w1 = w\<lparr>store_writes := store_writes w + 1\<rparr>
           in if store_write_ok E (store_writes w)
              then (Inr (), log (LogStateSaved lastId)
                              (w1\<lparr>store := Some \<lparr>last_id = lastId, user_id = userId\<rparr>\<rparr>))
              else (Inl StoreError, log LogStateSaveFailed w1))"

section \<open>Text and media of a tweet\<close>

definition extractTweetText :: "tweet \<Rightarrow> string" where
  "extractTweetText tweet =
     (let text0 = trim (case note_tweet_text tweet of
                          Some t \<Rightarrow> t
                        | None \<Rightarrow> (case tweet_text tweet of Some t \<Rightarrow> t | None \<Rightarrow> []));
          text1 = foldl (\<lambda>text url. if url \<noteq> [] then replaceAll_empty url text else text)
                        text0 (entity_urls tweet)
      in trim (replace_blank_lines (replace_ws_runs text1)))"

text \<open>
  The fixed texts of \<open>buildMessage\<close>. Their three emoji take two UTF-16 code units each and
  are written as two question marks, which keeps the lengths.
\<close>

definition VIDEO_NOTICE :: string where
  "VIDEO_NOTICE = ''?? Watch the full video via the Source link below ??''"

definition SOURCE_LABEL :: string where
  "SOURCE_LABEL = ''?? Source:''"

definition tweetUrl :: "string \<Rightarrow> string \<Rightarrow> string" where
  "tweetUrl user ident = ''https://x.com/'' @ user @ ''/status/'' @ ident"

definition buildMessage :: "string \<Rightarrow> tweet \<Rightarrow> bool \<Rightarrow> string" where
  "buildMessage user tweet hasVideoPreview =
     extractTweetText tweet
       @ (if hasVideoPreview then [NL, NL] @ VIDEO_NOTICE else [])
       @ [NL, NL] @ SOURCE_LABEL @ [NL] @ tweetUrl user (tweet_id tweet)"

text \<open>
  \<open>new Map(mediaData.map(m => [m.media_key, m]))\<close>: of two entries with one key the later
  one stays.
\<close>

definition mediaMap :: "media_obj list \<Rightarrow> string \<Rightarrow> media_obj option" where
  "mediaMap mediaData = map_of (rev (map (\<lambda>m. (media_key m, m)) mediaData))"

definition eligible :: "media_obj \<Rightarrow> bool" where
  "eligible m \<longleftrightarrow>
     (media_type m = ''photo'' \<and> truthy (media_url m))
     \<or> (media_type m = ''video'' \<and> truthy (preview_image_url m))"

definition to_tg_media :: "media_obj \<Rightarrow> tg_media" where
  "to_tg_media m =
     \<lparr>tg_type = (if media_type m = ''video'' then ''photo'' else media_type m),
      tg_url = (if media_type m = ''video'' then str_or_empty (preview_image_url m)
                else str_or_empty (media_url m)),
      isVideoPreview = (media_type m = ''video'')\<rparr>"

definition extractMedia :: "tweet \<Rightarrow> media_obj list \<Rightarrow> tg_media list" where
  "extractMedia tweet mediaData =
     (if media_keys tweet = [] \<or> mediaData = [] then []
      else map to_tg_media
             (filter eligible (List.map_filter (mediaMap mediaData) (media_keys tweet))))"

definition generateCaption :: "string \<Rightarrow> string" where
  "generateCaption message =
     (if length message \<le> TELEGRAM_CAPTION_MAX_LENGTH then message
      else substring message 0 (TELEGRAM_CAPTION_MAX_LENGTH - 3) @ ''...'')"

section \<open>Sending to Telegram\<close>

text \<open>One call of \<open>bot.api\<close>: it is counted, and recorded when Telegram accepts it.\<close>

definition tg_api :: "env \<Rightarrow> tg_call \<Rightarrow> world \<Rightarrow> (error + unit) \<times> world" where
  "tg_api E c w =
     (let w1 = w\<lparr>tg_calls := tg_calls w + 1\<rparr>
      in if tg_ok E (tg_calls w) c then (Inr (), w1\<lparr>delivered := delivered w1 @ [c]\<rparr>)
         else (Inl TelegramError, w1))"

text \<open>The \<open>for (const part of chunks)\<close> loop: a throwing call ends it.\<close>

fun send_parts :: "env \<Rightarrow> bool \<Rightarrow> string list \<Rightarrow> world \<Rightarrow> (error + unit) \<times> world" where
  "send_parts E dp [] w = (Inr (), w)"
| "send_parts E dp (part # parts) w =
     (case tg_api E (SendMessage part dp) w of
        (Inl e, w1) \<Rightarrow> (Inl e, w1)
      | (Inr u, w1) \<Rightarrow> send_parts E dp parts w1)"

definition sendTextMessageChunked :: "env \<Rightarrow> string \<Rightarrow> bool \<Rightarrow> world \<Rightarrow> (error + unit) \<times> world" where
  "sendTextMessageChunked E message dp w =
     (case chunkTelegramMessage message TELEGRAM_MAX_MESSAGE_LENGTH of
        None \<Rightarrow> (Inl NonTermination, w)
      | Some chunks \<Rightarrow> send_parts E dp chunks w)"

definition sendSingleMedia :: "env \<Rightarrow> string \<Rightarrow> tg_media \<Rightarrow> world \<Rightarrow> (error + unit) \<times> world" where
  "sendSingleMedia E message mediaItem w =
     tg_api E (SendPhoto (tg_url mediaItem) (generateCaption message)) w"

definition mediaGroup :: "string \<Rightarrow> tg_media list \<Rightarrow> input_media list" where
  "mediaGroup message media =
     map (\<lambda>(idx, item). \<lparr>im_type = tg_type item, im_media = tg_url item,
                          im_caption = (if idx = 0 then Some (generateCaption message) else None)\<rparr>)
         (enumerate 0 (take TELEGRAM_MEDIA_GROUP_MAX_SIZE media))"

definition sendMediaGroup :: "env \<Rightarrow> string \<Rightarrow> tg_media list \<Rightarrow> bool \<Rightarrow> world \<Rightarrow> (error + unit) \<times> world" where
  "sendMediaGroup E message media dp w =
     (case tg_api E (SendMediaGroup (mediaGroup message media)) w of
        (Inl e, w1) \<Rightarrow> (Inl e, w1)
      | (Inr u, w1) \<Rightarrow>
          if TELEGRAM_CAPTION_MAX_LENGTH < length message
             \<or> TELEGRAM_MEDIA_GROUP_MAX_SIZE < length media
          then sendTextMessageChunked E message dp w1
          else (Inr (), w1))"

definition sendToTelegram ::
  "env \<Rightarrow> string \<Rightarrow> tg_media list \<Rightarrow> bool \<Rightarrow> bool \<Rightarrow> world \<Rightarrow> (error + unit) \<times> world" where
  "sendToTelegram E message media dp dry w =
     (if dry
      then (Inr (),
            log LogDryRunSeparator
              ((if media \<noteq> [] then log (LogDryRunMedia (map (\<lambda>m. (tg_type m, tg_url m)) media))
                else (\<lambda>w. w))
                 (log (LogDryRunMessage message) w)))
      else case media of
             [] \<Rightarrow> (case sendTextMessageChunked E message dp w of
                      (Inl e, w1) \<Rightarrow> (Inl e, log LogTelegramError w1)
                    | (Inr u, w1) \<Rightarrow> (Inr (), w1))
           | m # ms \<Rightarrow>
               (case (if ms = [] then sendSingleMedia E message m w
                      else sendMediaGroup E message media dp w) of
                  (Inl e, w1) \<Rightarrow> sendTextMessageChunked E message dp (log LogTelegramMediaError w1)
                | (Inr u, w1) \<Rightarrow> (Inr (), w1)))"

section \<open>X API helpers\<close>

definition getUserId :: "env \<Rightarrow> string \<Rightarrow> error + string" where
  "getUserId E user =
     (case userByUsername E user of
        Inl e \<Rightarrow> Inl e
      | Inr None \<Rightarrow> Inl UserNotFound
      | Inr (Some ident) \<Rightarrow> Inr ident)"

text \<open>
  \<open>a.localeCompare(b) <= 0\<close>. On two strings of decimal digits the comparison is the
  lexicographic order of the characters (\<open>HOL-Library.List_Lexorder\<close> over
  \<open>HOL-Library.Char_ord\<close>): every collation orders the digits \<open>0\<close> to \<open>9\<close> as their code
  units do, and the call passes no \<open>numeric\<close> option. On other strings the answer depends on the collation of the default locale of
  the runtime (letters before their code-unit order, case and accents at lower levels),
  which is the field \<^const>\<open>collation_le\<close> of the environment.
\<close>

definition localeCompare_le :: "env \<Rightarrow> string \<Rightarrow> string \<Rightarrow> bool" where
  "localeCompare_le E a b =
     (if is_decimal a \<and> is_decimal b then a \<le> b else collation_le E a b)"

text \<open>\<open>data.sort((a, b) => a.id.localeCompare(b.id))\<close> is the stable sort by that comparison.\<close>

definition fetchNewTweets ::
  "env \<Rightarrow> string \<Rightarrow> string option \<Rightarrow> bool \<Rightarrow> bool \<Rightarrow> nat \<Rightarrow> error + tweet list \<times> media_obj list" where
  "fetchNewTweets E userId sinceId inclRetweets inclReplies maxN =
     (let excl = (if \<not> inclRetweets then [''retweets''] else [])
                  @ (if \<not> inclReplies then [''replies''] else [])
      in case userTimeline E userId
                \<lparr>since_id = (if truthy sinceId then sinceId else None),
                 max_results = min X_API_MAX_RESULTS maxN,
                 exclude = excl\<rparr> of
           Inl e \<Rightarrow> Inl e
         | Inr (data, media) \<Rightarrow>
             Inr (sort_by (\<lambda>a b. localeCompare_le E (tweet_id a) (tweet_id b)) data, media))"

definition fetchSpecificTweet :: "env \<Rightarrow> string \<Rightarrow> error + tweet list \<times> media_obj list" where
  "fetchSpecificTweet E ident =
     (case singleTweet E ident of
        Inl e \<Rightarrow> Inl e
      | Inr (None, media) \<Rightarrow> Inl TweetNotFound
      | Inr (Some t, media) \<Rightarrow> Inr ([t], media))"

section \<open>Core run\<close>

definition getUserIdWithCache :: "env \<Rightarrow> string \<Rightarrow> state \<Rightarrow> world \<Rightarrow> (error + string) \<times> world" where
  "getUserIdWithCache E user st w =
     (if truthy (user_id st) then (Inr (str_or_empty (user_id st)), w)
      else let w1 = log (LogLookup user) w
           in case getUserId E user of
                Inl e \<Rightarrow> (Inl e, w1)
              | Inr userId \<Rightarrow>
                  (case saveState E (last_id st) (Some userId) w1 of
                     (Inl e, w2) \<Rightarrow> (Inl e, w2)
                   | (Inr u, w2) \<Rightarrow> (Inr userId, w2)))"

fun processTweets ::
  "env \<Rightarrow> tweet list \<Rightarrow> media_obj list \<Rightarrow> args \<Rightarrow> string \<Rightarrow> world \<Rightarrow> (error + unit) \<times> world" where
  "processTweets E [] mediaData a userId w = (Inr (), w)"
| "processTweets E (t # ts) mediaData a userId w =
     (let media = extractMedia t mediaData;
          hasVideoPreview = list_ex isVideoPreview media;
          msg = buildMessage (username a) t hasVideoPreview
      in case sendToTelegram E msg media (disablePreview a) (dryRun a) w of
           (Inl e, w1) \<Rightarrow> (Inl e, w1)
         | (Inr u, w1) \<Rightarrow>
             (case saveState E (Some (tweet_id t)) (Some userId) w1 of
                (Inl e, w2) \<Rightarrow> (Inl e, w2)
              | (Inr u, w2) \<Rightarrow>
                  processTweets E ts mediaData a userId
                    (log (LogPosted (tweet_id t) (length media)) w2)))"

text \<open>The body of the \<open>try\<close> block of \<open>run\<close>.\<close>

definition run_try :: "env \<Rightarrow> args \<Rightarrow> state \<Rightarrow> world \<Rightarrow> (error + unit) \<times> world" where
  "run_try E a st w =
     (case getUserIdWithCache E (username a) st w of
        (Inl e, w1) \<Rightarrow> (Inl e, w1)
      | (Inr userId, w1) \<Rightarrow>
          (let (fetched, w2) =
                 (if truthy (tweetId a)
                  then (fetchSpecificTweet E (str_or_empty (tweetId a)),
                        log (LogFetchSpecific (str_or_empty (tweetId a))) w1)
                  else (fetchNewTweets E userId (last_id st) (includeRetweets a)
                          (includeReplies a) (maxPerRun a), w1))
           in case fetched of
                Inl e \<Rightarrow> (Inl e, w2)
              | Inr (tweets, media) \<Rightarrow>
                  if tweets = [] then (Inr (), log LogNoNewTweets w2)
                  else (case processTweets E tweets media a userId
                               (log (LogFound (length tweets)) w2) of
                          (Inl e, w3) \<Rightarrow> (Inl e, w3)
                        | (Inr u, w3) \<Rightarrow> (Inr (), log (LogDone (length tweets)) w3))))"

text \<open>
  \<open>run\<close>: \<open>Inr ()\<close> is a normal return, \<open>Inl e\<close> the error thrown to \<open>main\<close>, which logs it
  and exits with status 1.
\<close>

definition run :: "env \<Rightarrow> args \<Rightarrow> world \<Rightarrow> (error + unit) \<times> world" where
  "run E a w =
     (if \<not> telegram_configured E then (Inl ConfigError, w)
      else if \<not> bearer_configured E then (Inl ConfigError, w)
      else case loadState E w of
             (Inl e, w0) \<Rightarrow> (Inl e, w0)
           | (Inr st, w0) \<Rightarrow>
               (case run_try E a st w0 of
                  (Inl e, w1) \<Rightarrow>
                    if has429Status e then (Inr (), log LogWarnRateLimit w1) else (Inl e, w1)
                | (Inr u, w1) \<Rightarrow> (Inr (), w1)))"

section \<open>The file-backed revision (src/x_to_telegram.js)\<close>

text \<open>
  The functions of src/x_to_telegram.js that differ from the ones above carry the suffix
  \<open>_v1\<close>; \<open>getUserId\<close> is the same there. The state file holds \<open>{last_id}\<close> only.
\<close>

text \<open>Any failure of the read (no file, invalid JSON) yields the default state.\<close>

definition loadState_v1 :: "env \<Rightarrow> world \<Rightarrow> state" where
  "loadState_v1 E w =
     (if store_read_ok E
      then (case store w of Some st \<Rightarrow> st | None \<Rightarrow> \<lparr>last_id = None, user_id = None\<rparr>)
      else \<lparr>last_id = None, user_id = None\<rparr>)"

text \<open>A failed write is reported with \<open>err\<close> and not thrown again.\<close>

definition saveState_v1 :: "env \<Rightarrow> string option \<Rightarrow> world \<Rightarrow> (error + unit) \<times> world" where
  "saveState_v1 E lastId w =
     (let w1 = w\<lparr>store_writes := store_writes w + 1\<rparr>
      in if store_write_ok E (store_writes w)
         then (Inr (), w1\<lparr>store := Some \<lparr>last_id = lastId, user_id = None\<rparr>\<rparr>)
         else (Inr (), log LogStateSaveFailed w1))"

text \<open>The loop of this revision goes on at the cut itself (\<open>start = cut\<close>).\<close>

function chunk_loop_v1 :: "string \<Rightarrow> nat \<Rightarrow> nat \<Rightarrow> string list" where
  "chunk_loop_v1 text chunkSize start =
     (if start < length text \<and> 0 < chunkSize
      then substring text start (splitAt text chunkSize start)
             # chunk_loop_v1 text chunkSize (splitAt text chunkSize start)
      else [])"
  by pat_completeness auto
termination
proof (relation "measure (\<lambda>(s, chunkSize, start). length s - start)")
  fix s :: string and chunkSize start :: nat
  assume a: "start < length s \<and> 0 < chunkSize"
  then have "start < splitAt s chunkSize start"
    by (auto simp: splitAt_def Let_def split: option.splits)
  then show "((s, chunkSize, splitAt s chunkSize start), (s, chunkSize, start))
        \<in> measure (\<lambda>(s, chunkSize, start). length s - start)"
    using a by auto
qed simp

declare chunk_loop_v1.simps [simp del]

definition chunkTelegramMessage_v1 :: "string \<Rightarrow> nat \<Rightarrow> string list option" where
  "chunkTelegramMessage_v1 text chunkSize =
     (if length text \<le> chunkSize then Some [text]
      else if chunkSize = 0 then None
      else Some (chunk_loop_v1 text chunkSize 0))"

definition extractTweetText_v1 :: "tweet \<Rightarrow> string" where
  "extractTweetText_v1 tweet =
     (if truthy (note_tweet_text tweet) then trim (str_or_empty (note_tweet_text tweet))
      else trim (if truthy (tweet_text tweet) then str_or_empty (tweet_text tweet) else []))"

definition buildMessage_v1 :: "string \<Rightarrow> tweet \<Rightarrow> string" where
  "buildMessage_v1 user tweet =
     extractTweetText_v1 tweet @ [NL, NL] @ tweetUrl user (tweet_id tweet)"

fun send_parts_v1 :: "env \<Rightarrow> bool \<Rightarrow> string list \<Rightarrow> world \<Rightarrow> (error + unit) \<times> world" where
  "send_parts_v1 E dp [] w = (Inr (), w)"
| "send_parts_v1 E dp (part # parts) w =
     (case tg_api E (SendMessageHTML part dp) w of
        (Inl e, w1) \<Rightarrow> (Inl e, log LogTelegramError w1)
      | (Inr u, w1) \<Rightarrow> send_parts_v1 E dp parts w1)"

definition sendToTelegram_v1 :: "env \<Rightarrow> string \<Rightarrow> bool \<Rightarrow> bool \<Rightarrow> world \<Rightarrow> (error + unit) \<times> world" where
  "sendToTelegram_v1 E message dp dry w =
     (if dry then (Inr (), log (LogDryRunMessage message) w)
      else case chunkTelegramMessage_v1 message 4096 of
             None \<Rightarrow> (Inl NonTermination, w)
           | Some chunks \<Rightarrow> send_parts_v1 E dp chunks w)"

text \<open>
  \<open>BigInt(s)\<close> on a string (\<open>StringToBigInt\<close>): white space around the literal is dropped;
  the empty literal is \<open>0n\<close>; a literal is a run of decimal digits with an optional sign, or
  \<open>0x\<close>, \<open>0o\<close> or \<open>0b\<close> (in either case) followed by at least one digit of that radix and
  no sign. Anything else is a \<open>SyntaxError\<close>, here \<open>None\<close>.
\<close>

definition digit :: "char \<Rightarrow> nat" where
  "digit c = of_char c - 48"

definition decimal_value :: "string \<Rightarrow> nat" where
  "decimal_value s = foldl (\<lambda>n c. 10 * n + digit c) 0 s"

definition hex_digit :: "char \<Rightarrow> nat" where
  "hex_digit c =
     (let n = of_char c
      in if n \<le> 57 then n - 48 else if 97 \<le> n then n - 87 else n - 55)"

definition radix_value :: "nat \<Rightarrow> string \<Rightarrow> nat" where
  "radix_value b s = foldl (\<lambda>n c. b * n + hex_digit c) 0 s"

definition radix_literal :: "nat \<Rightarrow> string \<Rightarrow> string \<Rightarrow> int option" where
  "radix_literal b digits s =
     (if s \<noteq> [] \<and> list_all (\<lambda>c. c \<in> set digits) s then Some (int (radix_value b s)) else None)"

definition BigInt :: "string \<Rightarrow> int option" where
  "BigInt s =
     (let t = trim s
      in if is_decimal t then Some (int (decimal_value t))
         else case t of
                c # d # ds \<Rightarrow>
                  if c = CHR ''0'' \<and> d \<in> set ''xX''
                    then radix_literal 16 ''0123456789abcdefABCDEF'' ds
                  else if c = CHR ''0'' \<and> d \<in> set ''oO'' then radix_literal 8 ''01234567'' ds
                  else if c = CHR ''0'' \<and> d \<in> set ''bB'' then radix_literal 2 ''01'' ds
                  else if c = CHR ''+'' \<and> is_decimal (d # ds) then Some (int (decimal_value (d # ds)))
                  else if c = CHR ''-'' \<and> is_decimal (d # ds) then Some (- int (decimal_value (d # ds)))
                  else None
              | _ \<Rightarrow> None)"

text \<open>The sort key of an id that \<open>BigInt\<close> accepts.\<close>

definition BigInt_value :: "string \<Rightarrow> int" where
  "BigInt_value s = (case BigInt s of Some v \<Rightarrow> v | None \<Rightarrow> 0)"

text \<open>
  \<open>data.sort((a, b) => BigInt(a.id) < BigInt(b.id) ? -1 : 1)\<close> and \<open>data.slice(0, maxPerRun)\<close>.
  Sorting two or more elements compares each of them at least once, so one id that
  \<open>BigInt\<close> rejects makes the sort throw; an array of fewer elements is never compared.
  The comparator never answers 0; for two ids of equal value the order is the engine's
  choice, here the stable one.
\<close>

definition fetchNewTweets_v1 ::
  "env \<Rightarrow> string \<Rightarrow> string option \<Rightarrow> bool \<Rightarrow> bool \<Rightarrow> nat \<Rightarrow> error + tweet list" where
  "fetchNewTweets_v1 E userId sinceId inclRetweets inclReplies maxN =
     (let excl = (if \<not> inclRetweets then [''retweets''] else [])
                  @ (if \<not> inclReplies then [''replies''] else [])
      in case userTimeline E userId
                \<lparr>since_id = (if truthy sinceId then sinceId else None),
                 max_results = min 100 maxN,
                 exclude = excl\<rparr> of
           Inl e \<Rightarrow> Inl e
         | Inr (data, media) \<Rightarrow>
             if 2 \<le> length data \<and> \<not> list_all (\<lambda>t. BigInt (tweet_id t) \<noteq> None) data
             then Inl SyntaxError
             else Inr (take maxN (sort_key (\<lambda>t. BigInt_value (tweet_id t)) data)))"

text \<open>
  The \<open>for (const t of tweets)\<close> loop of \<open>runOnce\<close>. An error comes with the value the local
  variable \<open>lastId\<close> has when it is thrown, which the \<open>catch\<close> block returns.
\<close>

fun runOnce_loop ::
  "env \<Rightarrow> args \<Rightarrow> tweet list \<Rightarrow> string option \<Rightarrow> world
     \<Rightarrow> (error \<times> string option + string option) \<times> world" where
  "runOnce_loop E a [] lastId w = (Inr lastId, w)"
| "runOnce_loop E a (t # ts) lastId w =
     (case sendToTelegram_v1 E (buildMessage_v1 (username a) t) (disablePreview a) (dryRun a) w of
        (Inl e, w1) \<Rightarrow> (Inl (e, lastId), w1)
      | (Inr u, w1) \<Rightarrow>
          (case saveState_v1 E (Some (tweet_id t)) w1 of
             (Inl e, w2) \<Rightarrow> (Inl (e, Some (tweet_id t)), w2)
           | (Inr u, w2) \<Rightarrow>
               runOnce_loop E a ts (Some (tweet_id t)) (log (LogPosted (tweet_id t) 0) w2)))"

text \<open>
  \<open>runOnce\<close>: \<open>getUserId\<close> and \<open>loadState\<close> run before the \<open>try\<close> block. \<open>Inr lastId\<close> is the
  value returned, \<open>Inl e\<close> the error thrown to \<open>main\<close>.
\<close>

definition runOnce :: "env \<Rightarrow> args \<Rightarrow> world \<Rightarrow> (error + string option) \<times> world" where
  "runOnce E a w =
     (if \<not> telegram_configured E then (Inl ConfigError, w)
      else if \<not> bearer_configured E then (Inl ConfigError, w)
      else case getUserId E (username a) of
             Inl e \<Rightarrow> (Inl e, w)
           | Inr userId \<Rightarrow>
               (let lastId = last_id (loadState_v1 E w)
                in case (case fetchNewTweets_v1 E userId lastId (includeRetweets a)
                                (includeReplies a) (maxPerRun a) of
                           Inl e \<Rightarrow> (Inl (e, lastId), w)
                         | Inr tweets \<Rightarrow>
                             if tweets = [] then (Inr lastId, log LogNoNewTweets w)
                             else runOnce_loop E a tweets lastId w) of
                     (Inl (e, lid), w1) \<Rightarrow>
                       if (case e of ApiError c \<Rightarrow> c = 429 | _ \<Rightarrow> False)
                       then (Inr lid, log LogWarnRateLimit w1)
                       else (Inl e, w1)
                   | (Inr lid, w1) \<Rightarrow> (Inr lid, w1)))"

section \<open>Sample environment and world\<close>

text \<open>
  An environment in which every request succeeds and the X API has nothing to return, and
  an empty world. The concrete runs below change single fields of them.
\<close>

definition env_ok :: env where
  "env_ok =
     \<lparr>telegram_configured = True, bearer_configured = True, store_configured = True,
      store_read_ok = True, store_write_ok = (\<lambda>n. True), tg_ok = (\<lambda>n c. True),
      userByUsername = (\<lambda>u. Inr (Some ''42'')),
      userTimeline = (\<lambda>u q. Inr ([], [])),
      singleTweet = (\<lambda>i. Inr (None, [])),
      collation_le = (\<lambda>a b. a \<le> b)\<rparr>"

definition world0 :: world where
  "world0 = \<lparr>store = None, store_writes = 0, tg_calls = 0, delivered = [], logs = []\<rparr>"

definition args0 :: args where
  "args0 =
     \<lparr>username = ''u'', includeRetweets = False, includeReplies = False, maxPerRun = 50,
      disablePreview = False, dryRun = False, tweetId = None\<rparr>"

definition plain_tweet :: "string \<Rightarrow> string \<Rightarrow> tweet" where
  "plain_tweet ident body =
     \<lparr>tweet_id = ident, tweet_text = Some body, note_tweet_text = None, media_keys = [],
      entity_urls = []\<rparr>"

definition photo :: "string \<Rightarrow> tg_media" where
  "photo u = \<lparr>tg_type = ''photo'', tg_url = u, isVideoPreview = False\<rparr>"

text \<open>The ids of the \<open>[posted]\<close> lines of a log, in the order they were written.\<close>

fun posted_ids :: "log_event list \<Rightarrow> string list" where
  "posted_ids [] = []"
| "posted_ids (LogPosted ident n # evs) = ident # posted_ids evs"
| "posted_ids (ev # evs) = posted_ids evs"

section \<open>Chunking: auxiliary facts\<close>







lemma send_parts_prefix:
  "k \<le> length chunks \<Longrightarrow>
   (\<forall>i<k. tg_ok E (tg_calls w + i) (SendMessage (chunks ! i) dp)) \<Longrightarrow>
   (k < length chunks \<longrightarrow> \<not> tg_ok E (tg_calls w + k) (SendMessage (chunks ! k) dp)) \<Longrightarrow>
   send_parts E dp chunks w =
     ((if k < length chunks then Inl TelegramError else Inr ()),
      w\<lparr>tg_calls := tg_calls w + (if k < length chunks then k + 1 else k),
        delivered := delivered w @ map (\<lambda>p. SendMessage p dp) (take k chunks)\<rparr>)"
proof (induction chunks arbitrary: k w)
  case Nil
  then show ?case by simp
next
  case (Cons c cs)
  show ?case
  proof (cases k)
    case 0
    with Cons.prems show ?thesis by (simp add: tg_api_def Let_def)
  next
    case (Suc k')
    from Cons.prems Suc have ok0: "tg_ok E (tg_calls w) (SendMessage c dp)" by force
    define w1 where "w1 = w\<lparr>tg_calls := tg_calls w + 1, delivered := delivered w @ [SendMessage c dp]\<rparr>"
    have step: "send_parts E dp (c # cs) w = send_parts E dp cs w1"
      using ok0 by (simp add: tg_api_def Let_def w1_def)
    have a: "k' \<le> length cs" using Cons.prems Suc by simp
    have b: "\<forall>i<k'. tg_ok E (tg_calls w1 + i) (SendMessage (cs ! i) dp)"
    proof (intro allI impI)
      fix i assume "i < k'"
      then have "Suc i < k" using Suc by simp
      with Cons.prems(2) have "tg_ok E (tg_calls w + Suc i) (SendMessage ((c # cs) ! Suc i) dp)" by blast
      then show "tg_ok E (tg_calls w1 + i) (SendMessage (cs ! i) dp)" by (simp add: w1_def)
    qed
    have c: "k' < length cs \<longrightarrow> \<not> tg_ok E (tg_calls w1 + k') (SendMessage (cs ! k') dp)"
      using Cons.prems(3) Suc by (simp add: w1_def)
    show ?thesis
      unfolding step Cons.IH[OF a b c] using Suc by (simp add: w1_def)
  qed
qed

section \<open>Chunked text delivery\<close>




section \<open>Frame facts\<close>

lemma tg_api_frame:
  "store (snd (tg_api E c w)) = store w"
  "store_writes (snd (tg_api E c w)) = store_writes w"
  "logs (snd (tg_api E c w)) = logs w"
  by (simp_all add: tg_api_def Let_def)

lemma send_parts_frame:
  "store (snd (send_parts E dp cs w)) = store w
   \<and> store_writes (snd (send_parts E dp cs w)) = store_writes w
   \<and> logs (snd (send_parts E dp cs w)) = logs w"
proof (induction cs arbitrary: w)
  case Nil
  then show ?case by simp
next
  case (Cons c cs)
  obtain r w1 where s: "tg_api E (SendMessage c dp) w = (r, w1)" by fastforce
  have f: "store w1 = store w" "store_writes w1 = store_writes w" "logs w1 = logs w"
    using tg_api_frame[of E "SendMessage c dp" w] s by simp_all
  show ?case
  proof (cases r)
    case (Inl e)
    with s f show ?thesis by simp
  next
    case (Inr u)
    with s f Cons.IH[of w1] show ?thesis by simp
  qed
qed

lemma sendTextMessageChunked_frame:
  "store (snd (sendTextMessageChunked E m dp w)) = store w
   \<and> store_writes (snd (sendTextMessageChunked E m dp w)) = store_writes w
   \<and> logs (snd (sendTextMessageChunked E m dp w)) = logs w"
  using send_parts_frame by (simp add: sendTextMessageChunked_def split: option.splits)

lemma sendSingleMedia_frame:
  "store (snd (sendSingleMedia E m x w)) = store w
   \<and> store_writes (snd (sendSingleMedia E m x w)) = store_writes w
   \<and> logs (snd (sendSingleMedia E m x w)) = logs w"
  by (simp add: sendSingleMedia_def tg_api_frame)

lemma sendMediaGroup_frame:
  "store (snd (sendMediaGroup E m md dp w)) = store w
   \<and> store_writes (snd (sendMediaGroup E m md dp w)) = store_writes w
   \<and> logs (snd (sendMediaGroup E m md dp w)) = logs w"
proof -
  obtain r w1 where s: "tg_api E (SendMediaGroup (mediaGroup m md)) w = (r, w1)" by fastforce
  have f: "store w1 = store w" "store_writes w1 = store_writes w" "logs w1 = logs w"
    using tg_api_frame[of E "SendMediaGroup (mediaGroup m md)" w] s by simp_all
  show ?thesis
    using s f sendTextMessageChunked_frame[of E m dp w1]
    by (cases r) (simp_all add: sendMediaGroup_def)
qed

lemma sendToTelegram_frame:
  "store (snd (sendToTelegram E m md dp dry w)) = store w
   \<and> store_writes (snd (sendToTelegram E m md dp dry w)) = store_writes w"
proof (cases dry)
  case True
  then show ?thesis by (simp add: sendToTelegram_def log_def)
next
  case False
  show ?thesis
  proof (cases md)
    case Nil
    obtain r w1 where s: "sendTextMessageChunked E m dp w = (r, w1)" by fastforce
    with sendTextMessageChunked_frame[of E m dp w] False Nil show ?thesis
      by (cases r) (simp_all add: sendToTelegram_def log_def)
  next
    case (Cons x xs)
    define first where "first = (if xs = [] then sendSingleMedia E m x w
                                 else sendMediaGroup E m md dp w)"
    obtain r w1 where s: "first = (r, w1)" by fastforce
    have eq: "sendToTelegram E m md dp dry w =
                (case first of
                   (Inl e, w1) \<Rightarrow> sendTextMessageChunked E m dp (log LogTelegramMediaError w1)
                 | (Inr u, w1) \<Rightarrow> (Inr (), w1))"
      using False Cons by (simp add: sendToTelegram_def first_def)
    have f: "store w1 = store w \<and> store_writes w1 = store_writes w"
    proof (cases "xs = []")
      case True
      with s sendSingleMedia_frame[of E m x w] show ?thesis by (simp add: first_def)
    next
      case False
      with s sendMediaGroup_frame[of E m md dp w] show ?thesis by (simp add: first_def)
    qed
    show ?thesis
    proof (cases r)
      case (Inl e)
      with s f sendTextMessageChunked_frame[of E m dp "log LogTelegramMediaError w1"]
      show ?thesis unfolding eq by (simp add: log_def)
    next
      case (Inr u)
      with s f show ?thesis unfolding eq by simp
    qed
  qed
qed

lemma sendToTelegram_dry:
  "sendToTelegram E m md dp True w = (r, w1) \<Longrightarrow>
     r = Inr () \<and> delivered w1 = delivered w \<and> tg_calls w1 = tg_calls w"
  by (auto simp: sendToTelegram_def log_def)

lemma saveState_frame:
  "delivered (snd (saveState E l u w)) = delivered w"
  "tg_calls (snd (saveState E l u w)) = tg_calls w"
  by (simp_all add: saveState_def Let_def log_def)

lemma saveState_Inr:
  "saveState E l u w = (Inr x, w1) \<Longrightarrow>
     store w1 = Some \<lparr>last_id = l, user_id = u\<rparr> \<and> store_write_ok E (store_writes w)
     \<and> store_writes w1 = store_writes w + 1 \<and> store_configured E"
  by (auto simp: saveState_def Let_def log_def split: if_splits)


lemma saveState_ok:
  "store_configured E \<Longrightarrow> store_write_ok E (store_writes w) \<Longrightarrow>
     \<exists>w1. saveState E l u w = (Inr (), w1)"
  by (simp add: saveState_def Let_def)

section \<open>The per-post loop\<close>

lemma processTweets_append:
  "processTweets E (xs @ ys) md a uid w =
     (case processTweets E xs md a uid w of
        (Inl e, w1) \<Rightarrow> (Inl e, w1)
      | (Inr u, w1) \<Rightarrow> processTweets E ys md a uid w1)"
  by (induction xs arbitrary: w) (auto simp: Let_def split: prod.splits sum.splits)

lemma processTweets_cursor:
  "processTweets E ts md a uid w = (Inr x, w1) \<Longrightarrow>
     cursor w1 = (if ts = [] then cursor w else Some (tweet_id (last ts)))"
proof (induction ts arbitrary: w)
  case Nil
  then show ?case by simp
next
  case (Cons t ts)
  let ?media = "extractMedia t md"
  let ?msg = "buildMessage (username a) t (list_ex isVideoPreview ?media)"
  obtain r1 w2 where s: "sendToTelegram E ?msg ?media (disablePreview a) (dryRun a) w = (r1, w2)"
    by fastforce
  from Cons.prems s obtain u1 where r1: "r1 = Inr u1"
    by (cases r1) (auto simp: Let_def)
  obtain r2 w3 where sv: "saveState E (Some (tweet_id t)) (Some uid) w2 = (r2, w3)" by fastforce
  from Cons.prems s r1 sv obtain u2 where r2: "r2 = Inr u2"
    by (cases r2) (auto simp: Let_def)
  from saveState_Inr[OF sv[unfolded r2]]
  have st: "store w3 = Some \<lparr>last_id = Some (tweet_id t), user_id = Some uid\<rparr>" by simp
  from Cons.prems s r1 sv r2
  have rest: "processTweets E ts md a uid (log (LogPosted (tweet_id t) (length ?media)) w3) = (Inr x, w1)"
    by (simp add: Let_def)
  have "cursor (log (LogPosted (tweet_id t) (length ?media)) w3) = Some (tweet_id t)"
    using st by (simp add: cursor_def log_def)
  with Cons.IH[OF rest] show ?case by simp
qed

section \<open>Evaluation of concrete runs\<close>

lemmas eval_defs = env_ok_def world0_def args0_def plain_tweet_def photo_def
  run_def run_try_def loadState_def saveState_def getUserIdWithCache_def getUserId_def
  fetchSpecificTweet_def fetchNewTweets_def sort_by_def localeCompare_le_def is_decimal_def
  sendToTelegram_def sendTextMessageChunked_def
  sendSingleMedia_def sendMediaGroup_def mediaGroup_def tg_api_def generateCaption_def
  chunkTelegramMessage_def extractMedia_def buildMessage_def extractTweetText_def
  tweetUrl_def trim_def isWhiteSpace_def NL_def blank_match_def truthy_def str_or_empty_def
  log_def cursor_def has429Status_def substring_def
  TELEGRAM_MAX_MESSAGE_LENGTH_def TELEGRAM_CAPTION_MAX_LENGTH_def TELEGRAM_MEDIA_GROUP_MAX_SIZE_def
  X_API_MAX_RESULTS_def SOURCE_LABEL_def VIDEO_NOTICE_def Let_def

lemmas eval_v1_defs = env_ok_def world0_def args0_def plain_tweet_def
  runOnce_def loadState_v1_def saveState_v1_def getUserId_def fetchNewTweets_v1_def
  sendToTelegram_v1_def chunkTelegramMessage_v1_def buildMessage_v1_def extractTweetText_v1_def
  tweetUrl_def trim_def isWhiteSpace_def NL_def truthy_def str_or_empty_def log_def cursor_def
  tg_api_def is_decimal_def BigInt_def BigInt_value_def decimal_value_def digit_def Let_def

section \<open>Crash safety of the per-post loop\<close>

text \<open>
  C2. Let the loop have gone through the posts \<open>pre\<close> (each delivered, its id saved) and
  reached the world \<open>w1\<close>, and let the delivery of the next post \<open>t\<close> throw. Then the whole
  loop over \<open>pre @ t # post\<close> throws that error without touching the posts after \<open>t\<close>; the
  persisted \<open>last_id\<close>, both when \<open>t\<close> is taken up and when the loop ends, is the id of the
  last post of \<open>pre\<close>, or the one found at the start when \<open>pre\<close> is empty; and with distinct
  ids and a non-empty \<open>pre\<close> it is not the id of the last post.
\<close>

theorem crash_safety:
  assumes "processTweets E pre md a uid w = (Inr (), w1)"
    and "sendToTelegram E
           (buildMessage (username a) t (list_ex isVideoPreview (extractMedia t md)))
           (extractMedia t md) (disablePreview a) (dryRun a) w1 = (Inl e, w2)"
  shows "processTweets E (pre @ t # post) md a uid w = (Inl e, w2)
       \<and> cursor w1 = (if pre = [] then cursor w else Some (tweet_id (last pre)))
       \<and> cursor w2 = cursor w1
       \<and> (pre \<noteq> [] \<and> distinct (map tweet_id (pre @ t # post))
            \<longrightarrow> cursor w2 \<noteq> Some (tweet_id (last (t # post))))"
proof -
  have run: "processTweets E (pre @ t # post) md a uid w = (Inl e, w2)"
    using assms by (simp add: processTweets_append Let_def)
  have c1: "cursor w1 = (if pre = [] then cursor w else Some (tweet_id (last pre)))"
    using processTweets_cursor[OF assms(1)] .
  have c2: "cursor w2 = cursor w1"
  proof -
    have "store w2 = store w1"
      using sendToTelegram_frame[where w = w1 and E = E] assms(2) by (metis snd_conv)
    then show ?thesis by (simp add: cursor_def)
  qed
  have c3: "cursor w2 \<noteq> Some (tweet_id (last (t # post)))"
    if "pre \<noteq> []" and d: "distinct (map tweet_id (pre @ t # post))"
  proof -
    from that(1) have lp: "last pre \<in> set pre" by simp
    have lq: "last (t # post) \<in> set (t # post)" by (rule last_in_set) simp
    from d have "tweet_id ` set pre \<inter> tweet_id ` set (t # post) = {}"
      by (simp only: map_append distinct_append set_map)
    with lp lq have "tweet_id (last pre) \<noteq> tweet_id (last (t # post))"
      by blast
    with c1 c2 that(1) show ?thesis by simp
  qed
  from run c1 c2 c3 show ?thesis by blast
qed

theorem crash_safety_witness:
  "fst (processTweets (env_ok\<lparr>tg_ok := (\<lambda>n c. n \<noteq> 1)\<rparr>)
         [plain_tweet ''1'' ''a'', plain_tweet ''2'' ''b'', plain_tweet ''3'' ''c''] [] args0 ''42'' world0)
     = Inl TelegramError
   \<and> cursor (snd (processTweets (env_ok\<lparr>tg_ok := (\<lambda>n c. n \<noteq> 1)\<rparr>)
         [plain_tweet ''1'' ''a'', plain_tweet ''2'' ''b'', plain_tweet ''3'' ''c''] [] args0 ''42'' world0))
     = Some ''1''"
proof -
  let ?E = "env_ok\<lparr>tg_ok := (\<lambda>n c. n \<noteq> 1)\<rparr>"
  let ?t1 = "plain_tweet ''1'' ''a''" and ?t2 = "plain_tweet ''2'' ''b''" and ?t3 = "plain_tweet ''3'' ''c''"
  define w1 where "w1 = snd (processTweets ?E [?t1] [] args0 ''42'' world0)"
  define w2 where "w2 = snd (processTweets ?E [?t1, ?t2] [] args0 ''42'' world0)"
  have p1: "processTweets ?E [?t1] [] args0 ''42'' world0 = (Inr (), w1)"
    unfolding w1_def by (simp add: eval_defs)
  have p2: "sendToTelegram ?E
              (buildMessage (username args0) ?t2 (list_ex isVideoPreview (extractMedia ?t2 [])))
              (extractMedia ?t2 []) (disablePreview args0) (dryRun args0) w1 = (Inl TelegramError, w2)"
    unfolding w1_def w2_def by (simp add: eval_defs)
  have d: "[?t1] \<noteq> [] \<and> distinct (map tweet_id ([?t1] @ ?t2 # [?t3]))"
    by (simp add: plain_tweet_def)
  from crash_safety[OF p1 p2, of "[?t3]"] d
  have "processTweets ?E ([?t1] @ ?t2 # [?t3]) [] args0 ''42'' world0 = (Inl TelegramError, w2)"
    and "cursor w2 = Some (tweet_id (last [?t1]))"
    by simp_all
  then show ?thesis by (simp add: plain_tweet_def)
qed

section \<open>Caption of a single media item\<close>

text \<open>
  For every message and every single media item whose \<open>sendPhoto\<close> call is accepted: that
  call is the only one made, and its caption has at most 1024 characters.
\<close>

lemma sendSingleMedia_caption_only:
  assumes "tg_ok E (tg_calls w) (SendPhoto (tg_url x) (generateCaption m))"
  shows "sendToTelegram E m [x] dp False w =
           (Inr (), w\<lparr>tg_calls := tg_calls w + 1,
                      delivered := delivered w @ [SendPhoto (tg_url x) (generateCaption m)]\<rparr>)"
    and "length (generateCaption m) \<le> TELEGRAM_CAPTION_MAX_LENGTH"
  using assms
  by (auto simp: sendToTelegram_def sendSingleMedia_def tg_api_def Let_def generateCaption_def
        substring_def TELEGRAM_CAPTION_MAX_LENGTH_def)

text \<open>
  C5. A body of 1200 characters with one photo: the only call is \<open>sendPhoto\<close> with the
  caption of 1021 characters and three dots, and the characters after the 1021st are not
  sent at all. With two photos the same body goes out in full after the group.
\<close>

theorem single_media_long_body:
  "sendToTelegram env_ok (replicate 1200 CHR ''x'') [photo ''p1''] False False world0 =
     (Inr (), world0\<lparr>tg_calls := 1,
                     delivered := [SendPhoto ''p1'' (replicate 1021 CHR ''x'' @ ''...'')]\<rparr>)
   \<and> sendToTelegram env_ok (replicate 1200 CHR ''x'') [photo ''p1'', photo ''p2''] False False world0 =
     (Inr (), world0\<lparr>tg_calls := 2,
                     delivered :=
                       [SendMediaGroup
                          [\<lparr>im_type = ''photo'', im_media = ''p1'',
                            im_caption = Some (replicate 1021 CHR ''x'' @ ''...'')\<rparr>,
                           \<lparr>im_type = ''photo'', im_media = ''p2'', im_caption = None\<rparr>],
                        SendMessage (replicate 1200 CHR ''x'') False]\<rparr>)"
  by (simp add: eval_defs)

section \<open>Text of a tweet\<close>

text \<open>
  No text that \<open>extractTweetText\<close> returns holds a newline: the first replacement leaves
  none, so the second one never finds a match.
\<close>

lemma replace_ws_runs_no_ws:
  "c \<in> set (replace_ws_runs s) \<Longrightarrow> c = CHR 0x20 \<or> \<not> isWhiteSpace c"
proof (induction s rule: replace_ws_runs.induct)
  case 1
  then show ?case by simp
next
  case (2 x xs)
  then show ?case by (cases "isWhiteSpace x") auto
qed

lemma replace_ws_runs_no_newline: "NL \<notin> set (replace_ws_runs s)"
  using replace_ws_runs_no_ws[of NL s] by (auto simp: NL_def isWhiteSpace_def)

lemma replace_blank_lines_id: "NL \<notin> set s \<Longrightarrow> replace_blank_lines s = s"
  by (induction s) auto

lemma set_trim: "set (trim s) \<subseteq> set s"
proof -
  have "set (dropWhile isWhiteSpace (rev (dropWhile isWhiteSpace s))) \<subseteq> set (rev (dropWhile isWhiteSpace s))"
    by (rule set_dropWhileD[THEN subsetI])
  also have "\<dots> \<subseteq> set s" using set_dropWhileD[of _ isWhiteSpace s] by auto
  finally show ?thesis by (simp add: trim_def)
qed

lemma extractTweetText_no_newline: "NL \<notin> set (extractTweetText tw)"
proof -
  have "NL \<notin> set (replace_blank_lines (replace_ws_runs s))" for s
    by (simp add: replace_blank_lines_id replace_ws_runs_no_newline)
  then show ?thesis
    using set_trim by (fastforce simp: extractTweetText_def Let_def)
qed

text \<open>
  C9. A text of two paragraphs separated by a blank line: the first replacement turns the
  two newlines into one space, the second replacement finds no newline, and the result has
  no paragraph break.
\<close>

theorem paragraph_break_lost:
  "extractTweetText (plain_tweet ''1'' (''para one'' @ [NL, NL] @ ''para two'')) = ''para one para two''"
  by (simp add: eval_defs)

section \<open>Sending when Telegram accepts the calls\<close>

lemma chunks_default:
  "\<exists>cs. chunkTelegramMessage m TELEGRAM_MAX_MESSAGE_LENGTH = Some cs"
  by (simp add: chunkTelegramMessage_def TELEGRAM_MAX_MESSAGE_LENGTH_def)

lemma send_parts_accepted:
  assumes "\<forall>i<length cs. tg_ok E (tg_calls w + i) (SendMessage (cs ! i) dp)"
  shows "send_parts E dp cs w =
           (Inr (), w\<lparr>tg_calls := tg_calls w + length cs,
                      delivered := delivered w @ map (\<lambda>p. SendMessage p dp) cs\<rparr>)"
  using send_parts_prefix[of "length cs" cs E w dp] assms by simp

lemma send_parts_rejected:
  assumes "fst (send_parts E dp cs w) \<noteq> Inr ()"
  shows "\<exists>i<length cs. \<not> tg_ok E (tg_calls w + i) (SendMessage (cs ! i) dp)"
proof (rule ccontr)
  assume "\<not> ?thesis"
  then have "\<forall>i<length cs. tg_ok E (tg_calls w + i) (SendMessage (cs ! i) dp)" by blast
  from send_parts_accepted[OF this] assms show False by simp
qed

lemma sendTextMessageChunked_all_ok:
  assumes "\<forall>n c. tg_ok E n c"
  shows "fst (sendTextMessageChunked E m dp w) = Inr ()"
proof -
  obtain cs where cs: "chunkTelegramMessage m TELEGRAM_MAX_MESSAGE_LENGTH = Some cs"
    using chunks_default by blast
  have "\<forall>i<length cs. tg_ok E (tg_calls w + i) (SendMessage (cs ! i) dp)"
    using assms by simp
  from send_parts_accepted[OF this] cs show ?thesis
    by (simp add: sendTextMessageChunked_def)
qed

lemma sendToTelegram_all_ok:
  assumes "\<forall>n c. tg_ok E n c"
  shows "fst (sendToTelegram E m md dp dry w) = Inr ()"
proof (cases dry)
  case True
  then show ?thesis by (simp add: sendToTelegram_def)
next
  case False
  show ?thesis
  proof (cases md)
    case Nil
    obtain r w1 where s: "sendTextMessageChunked E m dp w = (r, w1)" by fastforce
    with sendTextMessageChunked_all_ok[OF assms, of m dp w] have "r = Inr ()" by simp
    with s False Nil show ?thesis by (simp add: sendToTelegram_def)
  next
    case (Cons x xs)
    show ?thesis
    proof (cases "xs = []")
      case True
      with False Cons assms show ?thesis
        by (simp add: sendToTelegram_def sendSingleMedia_def tg_api_def Let_def)
    next
      case ne: False
      obtain r w1 where s: "sendMediaGroup E m md dp w = (r, w1)" by fastforce
      have "fst (sendMediaGroup E m md dp w) = Inr ()"
        using assms sendTextMessageChunked_all_ok[OF assms, of m dp]
        by (simp add: sendMediaGroup_def tg_api_def Let_def)
      with s have "r = Inr ()" by simp
      with s False Cons ne show ?thesis by (simp add: sendToTelegram_def)
    qed
  qed
qed

section \<open>Dry run\<close>

lemma processTweets_dry_frame:
  "dryRun a \<Longrightarrow>
     delivered (snd (processTweets E ts md a uid w)) = delivered w
     \<and> tg_calls (snd (processTweets E ts md a uid w)) = tg_calls w"
proof (induction ts arbitrary: w)
  case Nil
  then show ?case by simp
next
  case (Cons t ts)
  let ?media = "extractMedia t md"
  let ?msg = "buildMessage (username a) t (list_ex isVideoPreview ?media)"
  obtain r1 w1 where s: "sendToTelegram E ?msg ?media (disablePreview a) True w = (r1, w1)"
    by fastforce
  from sendToTelegram_dry[OF s]
  have d1: "r1 = Inr ()" "delivered w1 = delivered w" "tg_calls w1 = tg_calls w" by simp_all
  obtain r2 w2 where sv: "saveState E (Some (tweet_id t)) (Some uid) w1 = (r2, w2)" by fastforce
  have d2: "delivered w2 = delivered w" "tg_calls w2 = tg_calls w"
    using saveState_frame[of E "Some (tweet_id t)" "Some uid" w1] sv d1 by simp_all
  show ?case
  proof (cases r2)
    case (Inl e)
    with s d1 sv d2 Cons.prems show ?thesis by (simp add: Let_def)
  next
    case (Inr u)
    have "delivered (log (LogPosted (tweet_id t) (length ?media)) w2) = delivered w"
         "tg_calls (log (LogPosted (tweet_id t) (length ?media)) w2) = tg_calls w"
      using d2 by (simp_all add: log_def)
    with Cons.IH[OF Cons.prems, of "log (LogPosted (tweet_id t) (length ?media)) w2"]
         s d1 sv Inr Cons.prems
    show ?thesis by (simp add: Let_def)
  qed
qed

lemma processTweets_writes_ok:
  "store_configured E \<Longrightarrow> \<forall>n. store_write_ok E n \<Longrightarrow>
     \<forall>m x y w1. fst (sendToTelegram E m x y (dryRun a) w1) = Inr () \<Longrightarrow>
     fst (processTweets E ts md a uid w) = Inr ()"
proof (induction ts arbitrary: w)
  case Nil
  then show ?case by simp
next
  case (Cons t ts)
  let ?media = "extractMedia t md"
  let ?msg = "buildMessage (username a) t (list_ex isVideoPreview ?media)"
  obtain r1 w1 where s: "sendToTelegram E ?msg ?media (disablePreview a) (dryRun a) w = (r1, w1)"
    by fastforce
  have r1: "r1 = Inr ()" using Cons.prems(3) s by (metis fst_conv)
  obtain w2 where sv: "saveState E (Some (tweet_id t)) (Some uid) w1 = (Inr (), w2)"
    using saveState_ok[of E w1] Cons.prems(1,2) by blast
  show ?case
    using s r1 sv Cons.IH[OF Cons.prems, of "log (LogPosted (tweet_id t) (length ?media)) w2"]
    by (simp add: Let_def)
qed

lemma processTweets_dry_live:
  assumes "dryRun a" and "\<forall>n c. tg_ok E n c"
    and "store wd = store wl" and "store_writes wd = store_writes wl"
  shows "fst (processTweets E ts md a uid wd) = fst (processTweets E ts md (a\<lparr>dryRun := False\<rparr>) uid wl)
       \<and> store (snd (processTweets E ts md a uid wd))
           = store (snd (processTweets E ts md (a\<lparr>dryRun := False\<rparr>) uid wl))
       \<and> store_writes (snd (processTweets E ts md a uid wd))
           = store_writes (snd (processTweets E ts md (a\<lparr>dryRun := False\<rparr>) uid wl))"
  using assms(3,4)
proof (induction ts arbitrary: wd wl)
  case Nil
  then show ?case by simp
next
  case (Cons t ts)
  let ?media = "extractMedia t md"
  let ?msg = "buildMessage (username a) t (list_ex isVideoPreview ?media)"
  obtain rd wd1 where sd: "sendToTelegram E ?msg ?media (disablePreview a) True wd = (rd, wd1)"
    by fastforce
  obtain rl wl1 where sl: "sendToTelegram E ?msg ?media (disablePreview a) False wl = (rl, wl1)"
    by fastforce
  have rd: "rd = Inr ()" using sendToTelegram_dry[OF sd] by simp
  have rl: "rl = Inr ()" using sendToTelegram_all_ok[OF assms(2), of ?msg ?media "disablePreview a" False wl] sl
    by simp
  have fd: "store wd1 = store wd" "store_writes wd1 = store_writes wd"
    using sendToTelegram_frame[of E ?msg ?media "disablePreview a" True wd] sd by simp_all
  have fl: "store wl1 = store wl" "store_writes wl1 = store_writes wl"
    using sendToTelegram_frame[of E ?msg ?media "disablePreview a" False wl] sl by simp_all
  have eq1: "store wd1 = store wl1" "store_writes wd1 = store_writes wl1"
    using fd fl Cons.prems by simp_all
  show ?case
  proof (cases "store_configured E \<and> store_write_ok E (store_writes wd1)")
    case True
    obtain wd2' where svd: "saveState E (Some (tweet_id t)) (Some uid) wd1 = (Inr (), wd2')"
      using saveState_ok[of E wd1] True by blast
    obtain wl2' where svl: "saveState E (Some (tweet_id t)) (Some uid) wl1 = (Inr (), wl2')"
      using saveState_ok[of E wl1] True eq1 by auto
    define wd2 where "wd2 = log (LogPosted (tweet_id t) (length ?media)) wd2'"
    define wl2 where "wl2 = log (LogPosted (tweet_id t) (length ?media)) wl2'"
    have eq2: "store wd2 = store wl2" "store_writes wd2 = store_writes wl2"
      using saveState_Inr[OF svd] saveState_Inr[OF svl] eq1
      by (simp_all add: wd2_def wl2_def log_def)
    have "processTweets E (t # ts) md a uid wd = processTweets E ts md a uid wd2"
      using sd rd svd assms(1) by (simp add: Let_def wd2_def)
    moreover have "processTweets E (t # ts) md (a\<lparr>dryRun := False\<rparr>) uid wl
                     = processTweets E ts md (a\<lparr>dryRun := False\<rparr>) uid wl2"
      using sl rl svl by (simp add: Let_def wl2_def)
    ultimately show ?thesis using Cons.IH[OF eq2] by simp
  next
    case False
    obtain rd2 wd2 where svd: "saveState E (Some (tweet_id t)) (Some uid) wd1 = (rd2, wd2)"
      by fastforce
    obtain rl2 wl2 where svl: "saveState E (Some (tweet_id t)) (Some uid) wl1 = (rl2, wl2)"
      by fastforce
    from False svd obtain e where ed: "rd2 = Inl e"
      by (auto simp: saveState_def Let_def split: if_splits)
    from False svl eq1 have el: "rl2 = Inl e"
      using svd ed by (auto simp: saveState_def Let_def split: if_splits)
    have st: "store wd2 = store wl2" "store_writes wd2 = store_writes wl2"
      using svd svl eq1 False
      by (auto simp: saveState_def Let_def log_def split: if_splits)
    have "processTweets E (t # ts) md a uid wd = (Inl e, wd2)"
      using sd rd svd ed assms(1) by (simp add: Let_def)
    moreover have "processTweets E (t # ts) md (a\<lparr>dryRun := False\<rparr>) uid wl = (Inl e, wl2)"
      using sl rl svl el by (simp add: Let_def)
    moreover note st
    ultimately show ?thesis by simp
  qed
qed

text \<open>
  C10. In a dry run the loop makes no call of the Telegram API, whatever the posts are.
  When the writes to the state store succeed, the loop has, after any initial part \<open>pre\<close> of
  the posts and before it goes on with the rest, stored the id of the last post of \<open>pre\<close> as
  \<open>last_id\<close>. Result and store are those of the live run on the same posts in which Telegram
  accepts every call.
\<close>

theorem dry_run_persists_cursor:
  assumes "dryRun a"
  shows "delivered (snd (processTweets E (pre @ post) md a uid w)) = delivered w
       \<and> tg_calls (snd (processTweets E (pre @ post) md a uid w)) = tg_calls w
       \<and> (store_configured E \<and> (\<forall>n. store_write_ok E n) \<longrightarrow>
            (\<exists>w1. processTweets E pre md a uid w = (Inr (), w1)
                  \<and> (pre \<noteq> [] \<longrightarrow> cursor w1 = Some (tweet_id (last pre)))
                  \<and> processTweets E (pre @ post) md a uid w = processTweets E post md a uid w1))
       \<and> ((\<forall>n c. tg_ok E n c) \<longrightarrow>
            fst (processTweets E (pre @ post) md a uid w)
              = fst (processTweets E (pre @ post) md (a\<lparr>dryRun := False\<rparr>) uid w)
            \<and> store (snd (processTweets E (pre @ post) md a uid w))
              = store (snd (processTweets E (pre @ post) md (a\<lparr>dryRun := False\<rparr>) uid w)))"
proof -
  have frame: "delivered (snd (processTweets E (pre @ post) md a uid w)) = delivered w
       \<and> tg_calls (snd (processTweets E (pre @ post) md a uid w)) = tg_calls w"
    using processTweets_dry_frame[OF assms] .
  have persist: "\<exists>w1. processTweets E pre md a uid w = (Inr (), w1)
                  \<and> (pre \<noteq> [] \<longrightarrow> cursor w1 = Some (tweet_id (last pre)))
                  \<and> processTweets E (pre @ post) md a uid w = processTweets E post md a uid w1"
    if "store_configured E" and "\<forall>n. store_write_ok E n"
  proof -
    have "\<forall>m x y w1. fst (sendToTelegram E m x y (dryRun a) w1) = Inr ()"
      using assms by (simp add: sendToTelegram_def)
    from processTweets_writes_ok[OF that this]
    have "fst (processTweets E pre md a uid w) = Inr ()" .
    then obtain w1 where p: "processTweets E pre md a uid w = (Inr (), w1)"
      by (metis prod.collapse)
    from processTweets_cursor[OF p] have "pre \<noteq> [] \<longrightarrow> cursor w1 = Some (tweet_id (last pre))"
      by simp
    moreover have "processTweets E (pre @ post) md a uid w = processTweets E post md a uid w1"
      using p by (simp add: processTweets_append)
    ultimately show ?thesis using p by blast
  qed
  have live: "fst (processTweets E (pre @ post) md a uid w)
              = fst (processTweets E (pre @ post) md (a\<lparr>dryRun := False\<rparr>) uid w)
            \<and> store (snd (processTweets E (pre @ post) md a uid w))
              = store (snd (processTweets E (pre @ post) md (a\<lparr>dryRun := False\<rparr>) uid w))"
    if "\<forall>n c. tg_ok E n c"
    using processTweets_dry_live[OF assms that, of w w] by simp
  from frame persist live show ?thesis by blast
qed

theorem dry_run_persists_cursor_witness:
  "dryRun (args0\<lparr>dryRun := True\<rparr>)
   \<and> delivered (snd (processTweets env_ok [plain_tweet ''1'' ''a'', plain_tweet ''2'' ''b''] []
                        (args0\<lparr>dryRun := True\<rparr>) ''42'' world0)) = []
   \<and> tg_calls (snd (processTweets env_ok [plain_tweet ''1'' ''a'', plain_tweet ''2'' ''b''] []
                        (args0\<lparr>dryRun := True\<rparr>) ''42'' world0)) = 0
   \<and> cursor (snd (processTweets env_ok [plain_tweet ''1'' ''a'', plain_tweet ''2'' ''b''] []
                        (args0\<lparr>dryRun := True\<rparr>) ''42'' world0)) = Some ''2''
   \<and> store (snd (processTweets env_ok [plain_tweet ''1'' ''a'', plain_tweet ''2'' ''b''] []
                        (args0\<lparr>dryRun := True\<rparr>) ''42'' world0))
       = store (snd (processTweets env_ok [plain_tweet ''1'' ''a'', plain_tweet ''2'' ''b''] []
                        args0 ''42'' world0))"
proof -
  let ?a = "args0\<lparr>dryRun := True\<rparr>"
  let ?ts = "[plain_tweet ''1'' ''a'', plain_tweet ''2'' ''b'']"
  have d: "dryRun ?a" by simp
  have ok: "store_configured env_ok \<and> (\<forall>n. store_write_ok env_ok n)" "\<forall>n c. tg_ok env_ok n c"
    by (simp_all add: env_ok_def)
  have a0: "?a\<lparr>dryRun := False\<rparr> = args0" by (simp add: args0_def)
  from dry_run_persists_cursor[OF d, of env_ok ?ts "[]" "[]" "''42''" world0] ok
  obtain w1 where
    f: "delivered (snd (processTweets env_ok ?ts [] ?a ''42'' world0)) = delivered world0"
       "tg_calls (snd (processTweets env_ok ?ts [] ?a ''42'' world0)) = tg_calls world0"
       "processTweets env_ok ?ts [] ?a ''42'' world0 = (Inr (), w1)"
       "cursor w1 = Some (tweet_id (last ?ts))"
       "store (snd (processTweets env_ok ?ts [] ?a ''42'' world0))
          = store (snd (processTweets env_ok ?ts [] (?a\<lparr>dryRun := False\<rparr>) ''42'' world0))"
    by auto
  from f show ?thesis unfolding a0 by (simp add: world0_def plain_tweet_def)
qed

section \<open>Fallback after a failed media send\<close>

text \<open>
  C4, as amended. When the media send of a message with media (\<open>sendSingleMedia\<close> for one
  item, \<open>sendMediaGroup\<close> for more) throws, \<open>sendToTelegram\<close> logs the error and sends the
  pieces of the full message as text, starting in the world the failed send left. If
  Telegram accepts each of these text calls the message ends delivered, all pieces in
  order; and it ends with an error only if one of these text calls is rejected.
\<close>

theorem media_fallback:
  assumes "(if ms = [] then sendSingleMedia E message m w
            else sendMediaGroup E message (m # ms) dp w) = (Inl e, w1)"
  shows "\<exists>chunks. chunkTelegramMessage message TELEGRAM_MAX_MESSAGE_LENGTH = Some chunks
          \<and> sendToTelegram E message (m # ms) dp False w
              = send_parts E dp chunks (log LogTelegramMediaError w1)
          \<and> ((\<forall>i<length chunks. tg_ok E (tg_calls w1 + i) (SendMessage (chunks ! i) dp))
               \<longrightarrow> sendToTelegram E message (m # ms) dp False w
                     = (Inr (), (log LogTelegramMediaError w1)
                                  \<lparr>tg_calls := tg_calls w1 + length chunks,
                                   delivered := delivered w1 @ map (\<lambda>p. SendMessage p dp) chunks\<rparr>))
          \<and> (fst (sendToTelegram E message (m # ms) dp False w) \<noteq> Inr ()
               \<longrightarrow> (\<exists>i<length chunks. \<not> tg_ok E (tg_calls w1 + i) (SendMessage (chunks ! i) dp)))"
proof -
  obtain chunks where cs: "chunkTelegramMessage message TELEGRAM_MAX_MESSAGE_LENGTH = Some chunks"
    using chunks_default by blast
  let ?w = "log LogTelegramMediaError w1"
  have eq: "sendToTelegram E message (m # ms) dp False w = send_parts E dp chunks ?w"
    using assms cs by (simp add: sendToTelegram_def sendTextMessageChunked_def)
  have tc: "tg_calls ?w = tg_calls w1" "delivered ?w = delivered w1"
    by (simp_all add: log_def)
  have acc: "sendToTelegram E message (m # ms) dp False w
               = (Inr (), ?w\<lparr>tg_calls := tg_calls w1 + length chunks,
                              delivered := delivered w1 @ map (\<lambda>p. SendMessage p dp) chunks\<rparr>)"
    if "\<forall>i<length chunks. tg_ok E (tg_calls w1 + i) (SendMessage (chunks ! i) dp)"
    using send_parts_accepted[of chunks E ?w dp] that tc unfolding eq by simp
  have rej: "\<exists>i<length chunks. \<not> tg_ok E (tg_calls w1 + i) (SendMessage (chunks ! i) dp)"
    if "fst (sendToTelegram E message (m # ms) dp False w) \<noteq> Inr ()"
    using send_parts_rejected[of E dp chunks ?w] that tc unfolding eq by simp
  from cs eq acc rej show ?thesis by blast
qed

theorem media_fallback_witness:
  "sendMediaGroup (env_ok\<lparr>tg_ok := (\<lambda>n c. n \<noteq> 0)\<rparr>) ''hello'' [photo ''p1'', photo ''p2''] False world0
     = (Inl TelegramError, world0\<lparr>tg_calls := 1\<rparr>)
   \<and> sendToTelegram (env_ok\<lparr>tg_ok := (\<lambda>n c. n \<noteq> 0)\<rparr>) ''hello'' [photo ''p1'', photo ''p2''] False False world0
     = (Inr (), world0\<lparr>tg_calls := 2, delivered := [SendMessage ''hello'' False],
                       logs := [LogTelegramMediaError]\<rparr>)"
proof -
  let ?E = "env_ok\<lparr>tg_ok := (\<lambda>n c. n \<noteq> 0)\<rparr>"
  have g: "sendMediaGroup ?E ''hello'' [photo ''p1'', photo ''p2''] False world0
             = (Inl TelegramError, world0\<lparr>tg_calls := 1\<rparr>)"
    by (simp add: sendMediaGroup_def tg_api_def env_ok_def world0_def Let_def)
  then have p: "(if [photo ''p2''] = [] then sendSingleMedia ?E ''hello'' (photo ''p1'') world0
             else sendMediaGroup ?E ''hello'' (photo ''p1'' # [photo ''p2'']) False world0)
            = (Inl TelegramError, world0\<lparr>tg_calls := 1\<rparr>)"
    by simp
  have c: "chunkTelegramMessage ''hello'' TELEGRAM_MAX_MESSAGE_LENGTH = Some [''hello'']"
    by (simp add: chunkTelegramMessage_def TELEGRAM_MAX_MESSAGE_LENGTH_def)
  from media_fallback[OF p] c
  have "(\<forall>i<length [''hello'']. tg_ok ?E (tg_calls (world0\<lparr>tg_calls := 1\<rparr>) + i) (SendMessage ([''hello''] ! i) False))
        \<longrightarrow> sendToTelegram ?E ''hello'' (photo ''p1'' # [photo ''p2'']) False False world0
              = (Inr (), (log LogTelegramMediaError (world0\<lparr>tg_calls := 1\<rparr>))
                           \<lparr>tg_calls := tg_calls (world0\<lparr>tg_calls := 1\<rparr>) + length [''hello''],
                            delivered := delivered (world0\<lparr>tg_calls := 1\<rparr>)
                                           @ map (\<lambda>p. SendMessage p False) [''hello'']\<rparr>)"
    by auto
  then have "sendToTelegram ?E ''hello'' [photo ''p1'', photo ''p2''] False False world0
     = (Inr (), world0\<lparr>tg_calls := 2, delivered := [SendMessage ''hello'' False],
                       logs := [LogTelegramMediaError]\<rparr>)"
    by (simp add: env_ok_def world0_def log_def)
  with g show ?thesis by simp
qed

text \<open>
  The claim as stated fails when the text calls are rejected too: two photos, every call
  of the Telegram API rejected. The group send and the fallback's text send both throw.
\<close>

theorem media_and_text_rejected:
  "sendToTelegram (env_ok\<lparr>tg_ok := (\<lambda>n c. False)\<rparr>) ''hello'' [photo ''p1'', photo ''p2''] False False world0 =
     (Inl TelegramError, world0\<lparr>tg_calls := 2, logs := [LogTelegramMediaError]\<rparr>)"
  by (simp add: eval_defs)

section \<open>The [posted] lines\<close>






section \<open>Order of the fetched posts\<close>





text \<open>
  Outside the decimal ids the order is the collation's: where the locale puts \<open>a\<close> before
  \<open>B\<close>, so does the sort, against the order of the code units.
\<close>

lemma fetchNewTweets_collation:
  "fetchNewTweets
     (env_ok\<lparr>userTimeline := (\<lambda>u q. Inr ([plain_tweet ''B'' ''x'', plain_tweet ''a'' ''y''], [])),
             collation_le := (\<lambda>a b. a = ''a'' \<or> b = ''B'')\<rparr>)
     ''42'' None False False 50
   = Inr ([plain_tweet ''a'' ''y'', plain_tweet ''B'' ''x''], [])
   \<and> (''B'' :: string) < ''a''"
  by (simp add: fetchNewTweets_def sort_by_def localeCompare_le_def is_decimal_def env_ok_def
        plain_tweet_def truthy_def Let_def)



section \<open>Rate limit\<close>

lemma run_lookup_429:
  assumes "telegram_configured E" "bearer_configured E" "store_configured E" "store_read_ok E"
    and "\<not> (\<exists>s. store w = Some s \<and> truthy (user_id s))"
    and "userByUsername E (username a) = Inl (ApiError 429)"
  shows "\<exists>evs. run E a w = (Inr (), w\<lparr>logs := logs w @ evs @ [LogWarnRateLimit]\<rparr>)
               \<and> posted_ids evs = []"
proof (cases "store w")
  case None
  with assms show ?thesis
    by (intro exI[of _ "[LogStateFresh, LogLookup (username a)]"])
       (simp add: run_def run_try_def loadState_def getUserIdWithCache_def getUserId_def
          has429Status_def truthy_def log_def)
next
  case (Some s)
  with assms have "\<not> truthy (user_id s)" by simp
  with Some assms show ?thesis
    by (intro exI[of _ "[LogStateLoaded (last_id s) (user_id s), LogLookup (username a)]"])
       (simp add: run_def run_try_def loadState_def getUserIdWithCache_def getUserId_def
          has429Status_def log_def)
qed

lemma fetch_429:
  assumes "if truthy (tweetId a)
           then singleTweet E (str_or_empty (tweetId a)) = Inl (ApiError 429)
           else (\<forall>u q. userTimeline E u q = Inl (ApiError 429))"
  shows "truthy (tweetId a)
           \<Longrightarrow> fetchSpecificTweet E (str_or_empty (tweetId a)) = Inl (ApiError 429)"
    and "\<not> truthy (tweetId a) \<Longrightarrow> fetchNewTweets E uid since ir ip n = Inl (ApiError 429)"
  using assms by (simp_all add: fetchSpecificTweet_def fetchNewTweets_def Let_def)

lemma run_fetch_429:
  assumes "telegram_configured E" "bearer_configured E" "store_configured E" "store_read_ok E"
    and "if truthy (tweetId a)
         then singleTweet E (str_or_empty (tweetId a)) = Inl (ApiError 429)
         else (\<forall>u q. userTimeline E u q = Inl (ApiError 429))"
    and "(\<exists>s. store w = Some s \<and> truthy (user_id s))
         \<or> ((\<exists>i. userByUsername E (username a) = Inr (Some i)) \<and> store_write_ok E (store_writes w))"
  shows "\<exists>w'. run E a w = (Inr (), w')
               \<and> (\<exists>evs. logs w' = logs w @ evs @ [LogWarnRateLimit] \<and> posted_ids evs = [])
               \<and> delivered w' = delivered w \<and> tg_calls w' = tg_calls w
               \<and> cursor w' = cursor w"
proof (cases "\<exists>s. store w = Some s \<and> truthy (user_id s)")
  case True
  then obtain s where s: "store w = Some s" "truthy (user_id s)" by blast
  show ?thesis
  proof (cases "truthy (tweetId a)")
    case True
    with s assms(1-4) fetch_429[OF assms(5)] show ?thesis
      by (simp add: run_def run_try_def loadState_def getUserIdWithCache_def
            has429Status_def log_def cursor_def
            exI[of _ "[LogStateLoaded (last_id s) (user_id s), LogFetchSpecific (str_or_empty (tweetId a))]"])
  next
    case False
    with s assms(1-4) fetch_429[OF assms(5)] show ?thesis
      by (simp add: run_def run_try_def loadState_def getUserIdWithCache_def
            has429Status_def log_def cursor_def
            exI[of _ "[LogStateLoaded (last_id s) (user_id s)]"])
  qed
next
  case False
  with assms(6) obtain i where i: "userByUsername E (username a) = Inr (Some i)"
    and wok: "store_write_ok E (store_writes w)" by blast
  show ?thesis
  proof (cases "store w")
    case None
    show ?thesis
    proof (cases "truthy (tweetId a)")
      case True
      with None i wok assms(1-4) fetch_429[OF assms(5)] show ?thesis
        by (simp add: run_def run_try_def loadState_def getUserIdWithCache_def getUserId_def
              saveState_def has429Status_def log_def cursor_def truthy_def Let_def
              exI[of _ "[LogStateFresh, LogLookup (username a), LogStateSaved None,
                         LogFetchSpecific (str_or_empty (tweetId a))]"])
    next
      case False
      with None i wok assms(1-4) fetch_429[OF assms(5)] show ?thesis
        by (simp add: run_def run_try_def loadState_def getUserIdWithCache_def getUserId_def
              saveState_def has429Status_def log_def cursor_def truthy_def Let_def
              exI[of _ "[LogStateFresh, LogLookup (username a), LogStateSaved None]"])
    qed
  next
    case (Some s)
    with False have nt: "\<not> truthy (user_id s)" by simp
    show ?thesis
    proof (cases "truthy (tweetId a)")
      case True
      with Some nt i wok assms(1-4) fetch_429[OF assms(5)] show ?thesis
        by (simp add: run_def run_try_def loadState_def getUserIdWithCache_def getUserId_def
              saveState_def has429Status_def log_def cursor_def Let_def
              exI[of _ "[LogStateLoaded (last_id s) (user_id s), LogLookup (username a),
                         LogStateSaved (last_id s),
                         LogFetchSpecific (str_or_empty (tweetId a))]"])
    next
      case False
      with Some nt i wok assms(1-4) fetch_429[OF assms(5)] show ?thesis
        by (simp add: run_def run_try_def loadState_def getUserIdWithCache_def getUserId_def
              saveState_def has429Status_def log_def cursor_def Let_def
              exI[of _ "[LogStateLoaded (last_id s) (user_id s), LogLookup (username a),
                         LogStateSaved (last_id s)]"])
    qed
  qed
qed

lemma runOnce_fetch_429:
  assumes "telegram_configured E" "bearer_configured E"
    and "\<exists>i. userByUsername E (username a) = Inr (Some i)"
    and "\<forall>u q. userTimeline E u q = Inl (ApiError 429)"
  shows "runOnce E a w = (Inr (last_id (loadState_v1 E w)), log LogWarnRateLimit w)"
  using assms
  by (auto simp: runOnce_def getUserId_def fetchNewTweets_v1_def Let_def)

lemma runOnce_lookup_error:
  assumes "telegram_configured E" "bearer_configured E"
    and "userByUsername E (username a) = Inl e"
  shows "runOnce E a w = (Inl e, w)"
  using assms by (simp add: runOnce_def getUserId_def)

section \<open>Errors of the Telegram calls and of the store\<close>




section \<open>Writes of a run\<close>






lemma run_load_failure:
  assumes "telegram_configured E" "bearer_configured E"
    and "\<not> store_configured E \<or> \<not> store_read_ok E"
  shows "\<exists>e. run E a w = (Inl e, snd (loadState E w)) \<and> fst (loadState E w) = Inl e
              \<and> (e = ConfigError \<or> e = StoreError)"
  using assms by (auto simp: run_def loadState_def)

section \<open>Order of delivery in a run\<close>




section \<open>Rate limit: the theorem\<close>

text \<open>
  C3, as amended. In \<open>run\<close>, with the credentials set and the state store readable: when the
  account lookup is needed and throws the error with code 429, or when the account id is
  at hand (cached, or looked up and saved) and the fetch throws it, \<open>run\<close> returns normally;
  the log ends with the rate-limit warning and gains no \<open>[posted]\<close> line, no call of the
  Telegram API is made, and the persisted \<open>last_id\<close> is the one found. In \<open>runOnce\<close> of
  src/x_to_telegram.js a 429 of the fetch is handled in the same way (the warning is logged
  and the unchanged \<open>lastId\<close> returned), but the account lookup runs before the \<open>try\<close> block
  and any error it throws, 429 included, leaves \<open>runOnce\<close> as an error.
\<close>

theorem rate_limit_soft_success:
  "(telegram_configured E \<and> bearer_configured E \<and> store_configured E \<and> store_read_ok E
      \<and> ((\<not> (\<exists>s. store w = Some s \<and> truthy (user_id s))
            \<and> userByUsername E (username a) = Inl (ApiError 429))
          \<or> ((if truthy (tweetId a)
               then singleTweet E (str_or_empty (tweetId a)) = Inl (ApiError 429)
               else (\<forall>u q. userTimeline E u q = Inl (ApiError 429)))
              \<and> ((\<exists>s. store w = Some s \<and> truthy (user_id s))
                  \<or> ((\<exists>i. userByUsername E (username a) = Inr (Some i))
                      \<and> store_write_ok E (store_writes w)))))
     \<longrightarrow> (\<exists>w'. run E a w = (Inr (), w')
              \<and> (\<exists>evs. logs w' = logs w @ evs @ [LogWarnRateLimit] \<and> posted_ids evs = [])
              \<and> delivered w' = delivered w \<and> tg_calls w' = tg_calls w
              \<and> cursor w' = cursor w))
   \<and> (telegram_configured E \<and> bearer_configured E
        \<and> (\<exists>i. userByUsername E (username a) = Inr (Some i))
        \<and> (\<forall>u q. userTimeline E u q = Inl (ApiError 429))
       \<longrightarrow> runOnce E a w = (Inr (last_id (loadState_v1 E w)), log LogWarnRateLimit w))
   \<and> (telegram_configured E \<and> bearer_configured E
        \<and> userByUsername E (username a) = Inl e
       \<longrightarrow> runOnce E a w = (Inl e, w))"
proof (intro conjI impI)
  assume h: "telegram_configured E \<and> bearer_configured E \<and> store_configured E \<and> store_read_ok E
      \<and> ((\<not> (\<exists>s. store w = Some s \<and> truthy (user_id s))
            \<and> userByUsername E (username a) = Inl (ApiError 429))
          \<or> ((if truthy (tweetId a)
               then singleTweet E (str_or_empty (tweetId a)) = Inl (ApiError 429)
               else (\<forall>u q. userTimeline E u q = Inl (ApiError 429)))
              \<and> ((\<exists>s. store w = Some s \<and> truthy (user_id s))
                  \<or> ((\<exists>i. userByUsername E (username a) = Inr (Some i))
                      \<and> store_write_ok E (store_writes w)))))"
  then have cfg: "telegram_configured E" "bearer_configured E" "store_configured E" "store_read_ok E"
    by simp_all
  from h consider
      (lookup) "\<not> (\<exists>s. store w = Some s \<and> truthy (user_id s))"
               "userByUsername E (username a) = Inl (ApiError 429)"
    | (fetch) "if truthy (tweetId a)
               then singleTweet E (str_or_empty (tweetId a)) = Inl (ApiError 429)
               else (\<forall>u q. userTimeline E u q = Inl (ApiError 429))"
              "(\<exists>s. store w = Some s \<and> truthy (user_id s))
                 \<or> ((\<exists>i. userByUsername E (username a) = Inr (Some i))
                     \<and> store_write_ok E (store_writes w))"
    by blast
  then show "\<exists>w'. run E a w = (Inr (), w')
              \<and> (\<exists>evs. logs w' = logs w @ evs @ [LogWarnRateLimit] \<and> posted_ids evs = [])
              \<and> delivered w' = delivered w \<and> tg_calls w' = tg_calls w
              \<and> cursor w' = cursor w"
  proof cases
    case lookup
    from run_lookup_429[OF cfg lookup] obtain evs where
      "run E a w = (Inr (), w\<lparr>logs := logs w @ evs @ [LogWarnRateLimit]\<rparr>)" "posted_ids evs = []"
      by blast
    then show ?thesis
      by (intro exI[of _ "w\<lparr>logs := logs w @ evs @ [LogWarnRateLimit]\<rparr>"])
         (auto simp: cursor_def)
  next
    case fetch
    from run_fetch_429[OF cfg fetch] show ?thesis .
  qed
next
  assume "telegram_configured E \<and> bearer_configured E
        \<and> (\<exists>i. userByUsername E (username a) = Inr (Some i))
        \<and> (\<forall>u q. userTimeline E u q = Inl (ApiError 429))"
  then show "runOnce E a w = (Inr (last_id (loadState_v1 E w)), log LogWarnRateLimit w)"
    using runOnce_fetch_429 by blast
next
  assume "telegram_configured E \<and> bearer_configured E \<and> userByUsername E (username a) = Inl e"
  then show "runOnce E a w = (Inl e, w)"
    using runOnce_lookup_error by blast
qed

theorem rate_limit_soft_success_witness:
  "run (env_ok\<lparr>userTimeline := (\<lambda>u q. Inl (ApiError 429)), singleTweet := (\<lambda>i. Inl (ApiError 429))\<rparr>)
       args0 (world0\<lparr>store := Some \<lparr>last_id = Some ''9'', user_id = Some ''42''\<rparr>\<rparr>)
     = (Inr (), world0\<lparr>store := Some \<lparr>last_id = Some ''9'', user_id = Some ''42''\<rparr>,
                      logs := [LogStateLoaded (Some ''9'') (Some ''42''), LogWarnRateLimit]\<rparr>)
   \<and> runOnce (env_ok\<lparr>userTimeline := (\<lambda>u q. Inl (ApiError 429)), singleTweet := (\<lambda>i. Inl (ApiError 429))\<rparr>)
       args0 (world0\<lparr>store := Some \<lparr>last_id = Some ''9'', user_id = Some ''42''\<rparr>\<rparr>)
     = (Inr (Some ''9''),
        world0\<lparr>store := Some \<lparr>last_id = Some ''9'', user_id = Some ''42''\<rparr>,
               logs := [LogWarnRateLimit]\<rparr>)"
proof -
  let ?E = "env_ok\<lparr>userTimeline := (\<lambda>u q. Inl (ApiError 429)), singleTweet := (\<lambda>i. Inl (ApiError 429))\<rparr>"
  let ?w = "world0\<lparr>store := Some \<lparr>last_id = Some ''9'', user_id = Some ''42''\<rparr>\<rparr>"
  have pre: "telegram_configured ?E \<and> bearer_configured ?E \<and> store_configured ?E \<and> store_read_ok ?E
      \<and> ((\<not> (\<exists>s. store ?w = Some s \<and> truthy (user_id s))
            \<and> userByUsername ?E (username args0) = Inl (ApiError 429))
          \<or> ((if truthy (tweetId args0)
               then singleTweet ?E (str_or_empty (tweetId args0)) = Inl (ApiError 429)
               else (\<forall>u q. userTimeline ?E u q = Inl (ApiError 429)))
              \<and> ((\<exists>s. store ?w = Some s \<and> truthy (user_id s))
                  \<or> ((\<exists>i. userByUsername ?E (username args0) = Inr (Some i))
                      \<and> store_write_ok ?E (store_writes ?w)))))"
    by (simp add: env_ok_def world0_def args0_def truthy_def)
  have pre1: "telegram_configured ?E \<and> bearer_configured ?E
        \<and> (\<exists>i. userByUsername ?E (username args0) = Inr (Some i))
        \<and> (\<forall>u q. userTimeline ?E u q = Inl (ApiError 429))"
    by (simp add: env_ok_def)
  from rate_limit_soft_success[of ?E ?w args0] pre pre1
  have "\<exists>w'. run ?E args0 ?w = (Inr (), w')"
    and r1: "runOnce ?E args0 ?w = (Inr (last_id (loadState_v1 ?E ?w)), log LogWarnRateLimit ?w)"
    by blast+
  then have "fst (run ?E args0 ?w) = Inr ()" by auto
  moreover have "snd (run ?E args0 ?w)
      = world0\<lparr>store := Some \<lparr>last_id = Some ''9'', user_id = Some ''42''\<rparr>,
               logs := [LogStateLoaded (Some ''9'') (Some ''42''), LogWarnRateLimit]\<rparr>"
    by (simp add: eval_defs)
  ultimately have "run ?E args0 ?w
      = (Inr (), world0\<lparr>store := Some \<lparr>last_id = Some ''9'', user_id = Some ''42''\<rparr>,
                      logs := [LogStateLoaded (Some ''9'') (Some ''42''), LogWarnRateLimit]\<rparr>)"
    by (metis prod.collapse)
  with r1 show ?thesis by (simp add: loadState_v1_def env_ok_def world0_def log_def)
qed

text \<open>
  The claim as stated fails in src/x_to_telegram.js: the account lookup answers 429 and
  \<open>runOnce\<close> throws it.
\<close>

theorem runOnce_lookup_429_thrown:
  "runOnce (env_ok\<lparr>userByUsername := (\<lambda>u. Inl (ApiError 429))\<rparr>) args0 world0
     = (Inl (ApiError 429), world0)"
  by (simp add: eval_v1_defs)

section \<open>Failures of the state store\<close>




section \<open>Numeric and lexicographic order of decimal ids\<close>












text \<open>The other spellings \<open>BigInt\<close> accepts, and some it rejects.\<close>

lemma BigInt_spellings:
  "BigInt ''0x10'' = Some 16 \<and> BigInt ''0XfF'' = Some 255 \<and> BigInt ''0o17'' = Some 15
   \<and> BigInt ''0b101'' = Some 5 \<and> BigInt '' 12 '' = Some 12 \<and> BigInt ''+7'' = Some 7
   \<and> BigInt ''-5'' = Some (- 5) \<and> BigInt [] = Some 0
   \<and> BigInt ''1e3'' = None \<and> BigInt ''1.5'' = None \<and> BigInt ''0x'' = None
   \<and> BigInt ''-0x10'' = None \<and> BigInt ''12n'' = None \<and> BigInt ''-'' = None"
  by (simp add: BigInt_def trim_def isWhiteSpace_def is_decimal_def decimal_value_def digit_def
        radix_literal_def radix_value_def hex_digit_def Let_def)

lemma fetchNewTweets_v1_radix:
  "fetchNewTweets_v1
     (env_ok\<lparr>userTimeline := (\<lambda>u q. Inr ([plain_tweet ''0x10'' ''x'', plain_tweet ''9'' ''y''], []))\<rparr>)
     ''42'' None False False 50
   = Inr [plain_tweet ''9'' ''y'', plain_tweet ''0x10'' ''x'']"
  by (simp add: fetchNewTweets_v1_def BigInt_value_def BigInt_def trim_def isWhiteSpace_def
        is_decimal_def decimal_value_def digit_def radix_literal_def radix_value_def hex_digit_def
        env_ok_def plain_tweet_def truthy_def Let_def)



section \<open>A run over the timeline\<close>






section \<open>Order of delivery: the theorem\<close>




section \<open>A post given by its id\<close>















end
